theory Spec2Isabelle
  imports Complex_Main
begin

section \<open>The folding wall: layout and per-strip kinematics\<close>

text \<open>
  The development embeds \<^verbatim>\<open>src/components/FoldStrip.tsx\<close> (one strip of the wall and its
  per-frame callback) and the part of \<^verbatim>\<open>src/components/Scene3D.tsx\<close> that instantiates
  the strips (\<^verbatim>\<open>FoldingWall\<close>).

  Numbers. A TypeScript \<^verbatim>\<open>number\<close> is an IEEE 754 binary64 value (a double). The strip
  index and the strip count are produced by
  \<^verbatim>\<open>Array.from({ length: STRIP_COUNT }, (_, i) => i)\<close> and are natural numbers. The
  geometry and the kinematics are modelled over the mathematical \<^typ>\<open>real\<close>s, so their
  equations are equations of real arithmetic and rounding, infinities and NaN are outside
  that part of the model (the specification asks for them up to floating-point tolerance).
  The texture window is different: the specification asks for its identities with \<open>==\<close>
  and no tolerance, so the two divisions that compute it are modelled in binary64, with the
  rounding written out (\<open>double\<close> below). A division by zero is \<open>0\<close> in HOL and
  \<^verbatim>\<open>Infinity\<close> or \<^verbatim>\<open>NaN\<close> in the source: the theorems that divide by the strip count
  assume it positive.
\<close>

subsection \<open>Binary64 arithmetic\<close>

text \<open>
  \<open>binexp k x\<close> is the binary exponent of a positive \<open>x\<close>, the \<open>e\<close> with
  \<open>2 ^ e \<le> x < 2 ^ (e + 1)\<close>, found by doubling or halving at most \<open>k\<close> times;
  \<open>roundEven\<close> rounds to the nearest integer, a tie to the even one. \<open>double x\<close> is the
  binary64 value nearest to \<open>x\<close>: the quotient of \<open>\<bar>x\<bar>\<close> by the spacing
  \<open>2 ^ (e - 52)\<close> of the doubles around it (\<open>2 ^ - 1074\<close> in the subnormal range) is
  rounded to an integer, ties to even. The exponent range of binary64 ends at 1023 and the
  fuel 1100 covers it; a result of magnitude \<open>2 ^ 1024\<close> or more, which binary64 turns into
  an infinity, is outside the model. \<open>fdiv\<close> and \<open>fadd\<close> are the \<^verbatim>\<open>/\<close> and \<^verbatim>\<open>+\<close> of
  JavaScript on doubles: the exact result, rounded.
\<close>

fun binexp :: "nat \<Rightarrow> real \<Rightarrow> int" where
  "binexp 0 x = 0"
| "binexp (Suc k) x =
     (if x < 1 then binexp k (x * 2) - 1
      else if 2 \<le> x then binexp k (x / 2) + 1
      else 0)"

definition roundEven :: "real \<Rightarrow> int" where
  "roundEven q =
     (let f = \<lfloor>q\<rfloor> in
      if q - of_int f < 1 / 2 then f
      else if 1 / 2 < q - of_int f then f + 1
      else if even f then f else f + 1)"

definition double :: "real \<Rightarrow> real" where
  "double x =
     (if x = 0 then 0
      else let e = max (binexp 1100 \<bar>x\<bar>) (- 1022); u = 2 powi (e - 52)
           in sgn x * of_int (roundEven (\<bar>x\<bar> / u)) * u)"

definition fdiv :: "real \<Rightarrow> real \<Rightarrow> real" where
  "fdiv a b = double (a / b)"

definition fadd :: "real \<Rightarrow> real \<Rightarrow> real" where
  "fadd a b = double (a + b)"

subsection \<open>Data\<close>

text \<open>
  The two fields of a \<^verbatim>\<open>THREE.Texture\<close> that the strip sets on its clone (both are
  two-dimensional vectors), and the flag it raises.
\<close>

record Texture =
  needsUpdate :: bool
  repeat :: "real \<times> real"
  offset :: "real \<times> real"

record GlobalConfig =
  maxFoldAngle :: real

text \<open>\<^verbatim>\<open>interface FoldStripProps\<close>.\<close>

record FoldStripProps =
  index :: nat
  totalStrips :: nat
  texture :: Texture
  width :: real
  height :: real
  globalConfig :: GlobalConfig

text \<open>
  What the frame callback reads from its environment: \<^verbatim>\<open>pointer.x\<close>, \<^verbatim>\<open>pointer.y\<close>
  and \<^verbatim>\<open>viewport.width\<close> of \<^verbatim>\<open>useThree()\<close>, the value returned by
  \<^verbatim>\<open>state.clock.getElapsedTime()\<close>, and the callback's argument \<^verbatim>\<open>delta\<close>.
\<close>

record FrameInput =
  pointer_x :: real
  pointer_y :: real
  viewport_width :: real
  time :: real
  delta :: real

text \<open>The components of the mesh's \<^verbatim>\<open>position\<close> and \<^verbatim>\<open>rotation\<close>.\<close>

record Mesh =
  position_x :: real
  position_y :: real
  position_z :: real
  rotation_x :: real
  rotation_y :: real

text \<open>
  The mutable state of one strip: the refs \<^verbatim>\<open>targetRotation\<close> and \<^verbatim>\<open>targetX\<close>
  (both \<^verbatim>\<open>useRef(0)\<close>) and \<^verbatim>\<open>meshRef\<close> (\<^verbatim>\<open>useRef<THREE.Mesh>(null)\<close>, set when the
  mesh is mounted).
\<close>

record StripState =
  targetRotation :: real
  targetX :: real
  meshRef :: "Mesh option"

subsection \<open>The strip's static geometry (FoldStrip.tsx, lines 37--58)\<close>

text \<open>
  The clone's window: \<^verbatim>\<open>t.repeat.set(1 / totalStrips, 1)\<close> and
  \<^verbatim>\<open>t.offset.set(index / totalStrips, 0)\<close>, both quotients in binary64.
\<close>

definition stripTexture :: "FoldStripProps \<Rightarrow> Texture" where
  "stripTexture p =
     (texture p)\<lparr> needsUpdate := True,
                  repeat := (fdiv 1 (real (totalStrips p)), 1),
                  offset := (fdiv (real (index p)) (real (totalStrips p)), 0) \<rparr>"

definition stripWidth :: "FoldStripProps \<Rightarrow> real" where
  "stripWidth p = width p / real (totalStrips p)"

definition initialX :: "FoldStripProps \<Rightarrow> real" where
  "initialX p = - width p / 2 + (real (index p) * stripWidth p) + (stripWidth p / 2)"

text \<open>
  The refs before the first frame, and the mesh as it is mounted by
  \<^verbatim>\<open><mesh ref={meshRef} position={[initialX, 0, 0]} ...>\<close>.
\<close>

definition mountedMesh :: "FoldStripProps \<Rightarrow> Mesh" where
  "mountedMesh p =
     \<lparr> position_x = initialX p, position_y = 0, position_z = 0,
       rotation_x = 0, rotation_y = 0 \<rparr>"

definition initialState :: "FoldStripProps \<Rightarrow> StripState" where
  "initialState p = \<lparr> targetRotation = 0, targetX = 0, meshRef = Some (mountedMesh p) \<rparr>"

subsection \<open>The wall (Scene3D.tsx, lines 21--49)\<close>

definition STRIP_COUNT :: nat where
  "STRIP_COUNT = 24"

definition WALL_WIDTH :: real where
  "WALL_WIDTH = 12"

definition WALL_HEIGHT :: real where
  "WALL_HEIGHT = 8"

text \<open>\<^verbatim>\<open>Array.from({ length: n }, (_, i) => i)\<close>.\<close>

definition strips :: "nat \<Rightarrow> nat list" where
  "strips n = [0 ..< n]"

text \<open>
  The props of the strips that \<^verbatim>\<open>FoldingWall\<close> renders, in rendering order, with the
  three constants of the source taken as parameters; \<open>FoldingWall\<close> is the source's
  instance.
\<close>

definition FoldingWallWith :: "nat \<Rightarrow> real \<Rightarrow> real \<Rightarrow> Texture \<Rightarrow> FoldStripProps list" where
  "FoldingWallWith n w h tex =
     map (\<lambda>i. \<lparr> index = i, totalStrips = n, texture = tex, width = w, height = h,
                globalConfig = \<lparr> maxFoldAngle = pi / 2.2 \<rparr> \<rparr>)
         (strips n)"

definition FoldingWall :: "Texture \<Rightarrow> FoldStripProps list" where
  "FoldingWall tex = FoldingWallWith STRIP_COUNT WALL_WIDTH WALL_HEIGHT tex"

text \<open>A texture as \<^verbatim>\<open>new THREE.Texture()\<close> has it: repeat \<open>(1, 1)\<close>, offset \<open>(0, 0)\<close>.\<close>

definition defaultTexture :: Texture where
  "defaultTexture = \<lparr> needsUpdate = False, repeat = (1, 1), offset = (0, 0) \<rparr>"

subsection \<open>The frame callback (FoldStrip.tsx, lines 60--141)\<close>

text \<open>
  \<^verbatim>\<open>THREE.MathUtils.lerp(x, y, t)\<close> of the three.js library that the source imports:
  \<^verbatim>\<open>return ( 1 - t ) * x + t * y\<close>. It does not clamp \<open>t\<close>.
\<close>

definition lerp :: "real \<Rightarrow> real \<Rightarrow> real \<Rightarrow> real" where
  "lerp x y t = (1 - t) * x + t * y"

definition wave :: "real \<Rightarrow> nat \<Rightarrow> real" where
  "wave t i = sin (t * 0.5 + real i * 0.1) * 0.1"

definition dir :: "nat \<Rightarrow> real" where
  "dir i = (if i mod 2 = 0 then 1 else - 1)"

definition compression :: "real \<Rightarrow> real" where
  "compression px = max 0 (min 1 (\<bar>px\<bar> * 1.5))"

definition angle :: "FoldStripProps \<Rightarrow> FrameInput \<Rightarrow> real" where
  "angle p inp =
     dir (index p) *
       (maxFoldAngle (globalConfig p) * compression (pointer_x inp)
        + (wave (time inp) (index p) * 0.2))"

text \<open>
  \<^verbatim>\<open>newX\<close> and \<^verbatim>\<open>zOffset\<close> as functions of the value \<open>rot\<close> that
  \<^verbatim>\<open>targetRotation.current\<close> holds when line 115 reads it.
\<close>

definition newX :: "FoldStripProps \<Rightarrow> real \<Rightarrow> real" where
  "newX p rot = initialX p * cos \<bar>rot\<bar>"

definition zOffset :: "FoldStripProps \<Rightarrow> real \<Rightarrow> real" where
  "zOffset p rot = sin \<bar>rot\<bar> * (stripWidth p * 0.25) * dir (index p)"

definition tilt :: "FrameInput \<Rightarrow> real" where
  "tilt inp = pointer_y inp * 0.2"

text \<open>
  One call of the callback. It returns at once while the mesh is not mounted. The values
  \<^verbatim>\<open>mouseX\<close>, \<^verbatim>\<open>mouseInfluence\<close>, \<^verbatim>\<open>distToMouse\<close>, \<^verbatim>\<open>proximity\<close> and
  \<^verbatim>\<open>projectedWidth\<close> are computed by the source and never used; they are left out.
\<close>

definition useFrame :: "FoldStripProps \<Rightarrow> FrameInput \<Rightarrow> StripState \<Rightarrow> StripState" where
  "useFrame p inp s =
     (case meshRef s of
        None \<Rightarrow> s
      | Some m \<Rightarrow>
          let rot = lerp (targetRotation s) (angle p inp) (10 * delta inp);
              tx = lerp (targetX s) (newX p rot) (8 * delta inp);
              pz = lerp (position_z m) (zOffset p rot) (8 * delta inp);
              rx = lerp (rotation_x m) (tilt inp) (5 * delta inp)
          in \<lparr> targetRotation = rot, targetX = tx,
               meshRef = Some (m\<lparr> rotation_y := rot, position_x := tx,
                                   position_z := pz, rotation_x := rx \<rparr>) \<rparr>)"

subsection \<open>Successive frames\<close>

text \<open>The state of a strip after \<open>k\<close> calls of its callback with the same input.\<close>

primrec frames :: "FoldStripProps \<Rightarrow> FrameInput \<Rightarrow> nat \<Rightarrow> StripState \<Rightarrow> StripState" where
  "frames p inp 0 s = s"
| "frames p inp (Suc k) s = useFrame p inp (frames p inp k s)"

text \<open>
  The four smoothed values under the names the specification gives them:
  \<^verbatim>\<open>targetRotation.current\<close>, \<^verbatim>\<open>targetX.current\<close>, \<^verbatim>\<open>meshRef.current.position.z\<close> and
  \<^verbatim>\<open>meshRef.current.rotation.x\<close>. The last two exist only on a mounted mesh; every
  theorem that reads them assumes the mesh mounted.
\<close>

definition currentRotationY :: "StripState \<Rightarrow> real" where
  "currentRotationY s = targetRotation s"

definition currentPositionX :: "StripState \<Rightarrow> real" where
  "currentPositionX s = targetX s"

definition currentPositionZ :: "StripState \<Rightarrow> real" where
  "currentPositionZ s = (case meshRef s of None \<Rightarrow> 0 | Some m \<Rightarrow> position_z m)"

definition currentTiltX :: "StripState \<Rightarrow> real" where
  "currentTiltX s = (case meshRef s of None \<Rightarrow> 0 | Some m \<Rightarrow> rotation_x m)"

subsection \<open>The scene as a store\<close>









subsection \<open>The specification's clamp\<close>

text \<open>\<open>clamp v lo hi\<close> as the specification uses the word: \<open>v\<close> limited to \<open>[lo, hi]\<close>.\<close>

definition clamp :: "real \<Rightarrow> real \<Rightarrow> real \<Rightarrow> real" where
  "clamp v lo hi = (if v < lo then lo else if hi < v then hi else v)"

subsection \<open>Concrete strips and inputs\<close>

text \<open>
  Strip \<open>i\<close> of the specification's scenario wall (four strips, width 8, height 4) with
  the fold angle \<open>a\<close>, and an input sample; the source's own fold angle is
  \<open>pi / 2.2\<close>. They are the concrete inputs of the examples below.
\<close>

definition exampleStrip :: "nat \<Rightarrow> real \<Rightarrow> FoldStripProps" where
  "exampleStrip i a =
     \<lparr> index = i, totalStrips = 4, texture = defaultTexture, width = 8, height = 4,
       globalConfig = \<lparr> maxFoldAngle = a \<rparr> \<rparr>"

definition exampleInput :: "real \<Rightarrow> real \<Rightarrow> real \<Rightarrow> real \<Rightarrow> FrameInput" where
  "exampleInput px py t d =
     \<lparr> pointer_x = px, pointer_y = py, viewport_width = 16, time = t, delta = d \<rparr>"

text \<open>
  Two states of a mounted strip. \<open>flatState\<close> is the strip at rest in the flat wall:
  rotation 0, horizontal position \<open>initialX\<close>, depth 0, tilt 0. \<open>settledState\<close> holds,
  for a given input, the target rotation \<open>angle\<close>, the position targets computed from
  that rotation, and the target tilt.
\<close>

definition flatState :: "FoldStripProps \<Rightarrow> StripState" where
  "flatState p =
     \<lparr> targetRotation = 0, targetX = initialX p, meshRef = Some (mountedMesh p) \<rparr>"

definition settledState :: "FoldStripProps \<Rightarrow> FrameInput \<Rightarrow> StripState" where
  "settledState p inp =
     \<lparr> targetRotation = angle p inp,
       targetX = newX p (angle p inp),
       meshRef = Some \<lparr> position_x = newX p (angle p inp), position_y = 0,
                        position_z = zOffset p (angle p inp),
                        rotation_x = tilt inp, rotation_y = angle p inp \<rparr> \<rparr>"

section \<open>Layout\<close>

lemma FoldingWallWith_length: "length (FoldingWallWith n w h tex) = n"
  by (simp add: FoldingWallWith_def strips_def)

lemma FoldingWallWith_nth:
  "i < n \<Longrightarrow> FoldingWallWith n w h tex ! i =
     \<lparr> index = i, totalStrips = n, texture = tex, width = w, height = h,
       globalConfig = \<lparr> maxFoldAngle = pi / 2.2 \<rparr> \<rparr>"
  by (simp add: FoldingWallWith_def strips_def)

lemma FoldingWallWith_index: "map index (FoldingWallWith n w h tex) = [0 ..< n]"
  by (simp add: FoldingWallWith_def strips_def comp_def map_idI)

lemma initialX_wall:
  "i < n \<Longrightarrow> initialX (FoldingWallWith n w h tex ! i)
     = - w / 2 + real i * (w / real n) + (w / real n) / 2"
  by (simp add: FoldingWallWith_nth initialX_def stripWidth_def)

lemma stripWidth_wall:
  "i < n \<Longrightarrow> stripWidth (FoldingWallWith n w h tex ! i) = w / real n"
  by (simp add: FoldingWallWith_nth stripWidth_def)

lemma real_pred: "0 < n \<Longrightarrow> real (n - 1) = real n - 1"
  by (simp add: of_nat_diff)

text \<open>
  Claim C1. For a positive strip count \<open>n\<close> and a positive wall width \<open>w\<close> the wall
  renders exactly \<open>n\<close> strips, with the indices \<open>0, ..., n - 1\<close> in ascending order;
  every strip has the width \<open>w / n\<close>, which is positive, and strip \<open>i\<close> has its flat
  centre at \<open>- w / 2 + i * (w / n) + (w / n) / 2\<close>. The intervals of half-width
  \<open>(w / n) / 2\<close> around the centres tile \<open>[- w / 2, w / 2]\<close>: the first begins at
  \<open>- w / 2\<close>, each ends where the next begins, and the last ends at \<open>w / 2\<close>.
\<close>

theorem layout_tiles_wall:
  fixes n :: nat and w h :: real and tex :: Texture
  assumes n: "0 < n" and w: "0 < w"
  shows "length (FoldingWallWith n w h tex) = n
    \<and> map index (FoldingWallWith n w h tex) = [0 ..< n]
    \<and> (\<forall>i<n. stripWidth (FoldingWallWith n w h tex ! i) = w / real n
            \<and> initialX (FoldingWallWith n w h tex ! i)
                = - w / 2 + real i * (w / real n) + (w / real n) / 2)
    \<and> 0 < w / real n
    \<and> initialX (FoldingWallWith n w h tex ! 0) - (w / real n) / 2 = - w / 2
    \<and> (\<forall>i. i + 1 < n \<longrightarrow>
          initialX (FoldingWallWith n w h tex ! i) + (w / real n) / 2
            = initialX (FoldingWallWith n w h tex ! (i + 1)) - (w / real n) / 2)
    \<and> initialX (FoldingWallWith n w h tex ! (n - 1)) + (w / real n) / 2 = w / 2"
proof -
  let ?ps = "FoldingWallWith n w h tex"
  let ?sw = "w / real n"
  have 1: "length ?ps = n" by (simp add: FoldingWallWith_length)
  have 2: "map index ?ps = [0 ..< n]" by (simp add: FoldingWallWith_index)
  have 3: "\<forall>i<n. stripWidth (?ps ! i) = ?sw
              \<and> initialX (?ps ! i) = - w / 2 + real i * ?sw + ?sw / 2"
    by (simp add: initialX_wall stripWidth_wall)
  have 4: "0 < ?sw" using n w by simp
  have 5: "initialX (?ps ! 0) - ?sw / 2 = - w / 2"
    using n by (simp add: initialX_wall)
  have 6: "\<forall>i. i + 1 < n \<longrightarrow>
             initialX (?ps ! i) + ?sw / 2 = initialX (?ps ! (i + 1)) - ?sw / 2"
    by (simp add: initialX_wall add_divide_distrib algebra_simps)
  have 7: "initialX (?ps ! (n - 1)) + ?sw / 2 = w / 2"
    using n by (simp add: initialX_wall real_pred field_simps)
  from 1 2 3 4 5 6 7 show ?thesis by blast
qed

text \<open>
  The specification's scenario: four strips on a wall of width 8 have width 2 and the
  flat centres \<open>-3, -1, 1, 3\<close>.
\<close>

theorem layout_tiles_wall_witness:
  "(0::nat) < 4 \<and> (0::real) < 8
   \<and> map stripWidth (FoldingWallWith 4 8 4 defaultTexture) = [2, 2, 2, 2]
   \<and> map initialX (FoldingWallWith 4 8 4 defaultTexture) = [- 3, - 1, 1, 3]
   \<and> length (FoldingWallWith 4 8 4 defaultTexture) = 4
   \<and> map index (FoldingWallWith 4 8 4 defaultTexture) = [0, 1, 2, 3]
   \<and> initialX (FoldingWallWith 4 8 4 defaultTexture ! 0) - 1 = - 4
   \<and> initialX (FoldingWallWith 4 8 4 defaultTexture ! 3) + 1 = 4"
  using layout_tiles_wall [of 4 8 4 defaultTexture]
  by (simp add: FoldingWallWith_def strips_def initialX_def stripWidth_def upt_rec)

section \<open>The texture windows\<close>

text \<open>
  Evaluation of the exponent search at a numeral fuel, and the powers of two.
\<close>

lemma binexp_numeral:
  "binexp (numeral n) x =
     (if x < 1 then binexp (pred_numeral n) (x * 2) - 1
      else if 2 \<le> x then binexp (pred_numeral n) (x / 2) + 1
      else 0)"
  by (simp add: numeral_eq_Suc)

lemma p2_succ: "(2::real) powi (e + 1) = 2 * 2 powi e"
  by (simp add: power_int_add)

lemma p2_pred: "(2::real) powi (e - 1) = 2 powi e / 2"
  by (simp add: power_int_diff)

lemma p2_mono: "a \<le> b \<Longrightarrow> (2::real) powi a \<le> 2 powi b"
  by (rule power_int_increasing) simp_all

lemma p2_less_imp: "(2::real) powi a < 2 powi b \<Longrightarrow> a < b"
  using p2_mono [of b a] by (cases "a < b") simp_all

text \<open>
  The exponent search finds the binary exponent when the fuel reaches it, rounding to an
  integer errs by at most one half, and so \<open>double\<close> has the relative error \<open>2 ^ - 53\<close>
  on the normal range.
\<close>

lemma binexp_bounds:
  "0 < x \<Longrightarrow> 2 powi (- int k) \<le> x \<Longrightarrow> x < 2 powi (int k + 1) \<Longrightarrow>
     2 powi (binexp k x) \<le> x \<and> x < 2 powi (binexp k x + 1)"
proof (induction k arbitrary: x)
  case 0
  then show ?case by simp
next
  case (Suc k)
  show ?case
  proof (cases "x < 1")
    case True
    have lo: "2 powi (- int k) \<le> x * 2"
      using Suc.prems(2) p2_succ [of "- int (Suc k)"] by simp
    have hi: "x * 2 < 2 powi (int k + 1)"
    proof -
      have "(1::real) \<le> 2 ^ k" by simp
      with True have "x * 2 < 2 * 2 ^ k" by linarith
      then show ?thesis by (simp add: p2_succ)
    qed
    have pos: "0 < x * 2" using Suc.prems(1) by simp
    from Suc.IH [OF pos lo hi]
    have "2 powi (binexp k (x * 2)) \<le> x * 2" "x * 2 < 2 powi (binexp k (x * 2) + 1)"
      by simp_all
    then show ?thesis
      using True p2_pred [of "binexp k (x * 2)"] p2_succ [of "binexp k (x * 2)"]
      by simp
  next
    case False
    show ?thesis
    proof (cases "2 \<le> x")
      case True
      have lo: "2 powi (- int k) \<le> x / 2"
      proof -
        have "2 powi (- int k) \<le> (2::real) powi 0" by (rule p2_mono) simp
        then show ?thesis using True by simp
      qed
      have hi: "x / 2 < 2 powi (int k + 1)"
        using Suc.prems(3) p2_succ [of "int k + 1"] by (simp add: add.commute)
      have pos: "0 < x / 2" using Suc.prems(1) by simp
      from Suc.IH [OF pos lo hi]
      have "2 powi (binexp k (x / 2)) \<le> x / 2" "x / 2 < 2 powi (binexp k (x / 2) + 1)"
        by simp_all
      then show ?thesis
        using True False p2_succ [of "binexp k (x / 2)"] p2_succ [of "binexp k (x / 2) + 1"]
        by simp
    next
      case between: False
      then show ?thesis using False by simp
    qed
  qed
qed

lemma roundEven_error: "\<bar>of_int (roundEven q) - q\<bar> \<le> 1 / 2"
proof -
  have "of_int \<lfloor>q\<rfloor> \<le> q" "q < of_int \<lfloor>q\<rfloor> + 1" by linarith+
  then show ?thesis
    by (auto simp add: roundEven_def Let_def)
qed

lemma double_zero: "double 0 = 0"
  by (simp add: double_def)

lemma double_one: "double 1 = 1"
  by (simp add: double_def binexp_numeral roundEven_def Let_def)

lemma double_error:
  assumes pos: "0 < x" and lo: "2 powi (- 1022) \<le> x" and hi: "x < 2 powi 1101"
  shows "\<bar>double x - x\<bar> \<le> x * 2 powi (- 53)"
proof -
  define e where "e = binexp 1100 x"
  define u where "u = (2::real) powi (e - 52)"
  have lo': "2 powi (- int 1100) \<le> x"
  proof -
    have "(2::real) powi (- int 1100) \<le> 2 powi (- 1022)" by (rule p2_mono) simp
    with lo show ?thesis by linarith
  qed
  have hi': "x < 2 powi (int 1100 + 1)" using hi by simp
  have b: "2 powi e \<le> x" "x < 2 powi (e + 1)"
    using binexp_bounds [OF pos lo' hi'] by (simp_all add: e_def)
  have "(2::real) powi (- 1022) < 2 powi (e + 1)" using lo b(2) by linarith
  then have "- 1022 < e + 1" by (rule p2_less_imp)
  then have m: "max e (- 1022) = e" by simp
  have upos: "0 < u" by (simp add: u_def)
  have d: "double x = of_int (roundEven (x / u)) * u"
    using pos by (simp add: double_def Let_def e_def [symmetric] m u_def [symmetric])
  have "double x - x = (of_int (roundEven (x / u)) - x / u) * u"
    using upos by (simp add: d field_simps)
  then have "\<bar>double x - x\<bar> = \<bar>of_int (roundEven (x / u)) - x / u\<bar> * u"
    using upos by (simp add: abs_mult)
  also have "\<dots> \<le> (1 / 2) * u"
    using roundEven_error [of "x / u"] upos by (intro mult_right_mono) simp_all
  also have "(1 / 2) * u = 2 powi e * 2 powi (- 53)"
    by (simp add: u_def power_int_diff power_int_minus field_simps)
  also have "\<dots> \<le> x * 2 powi (- 53)"
    using b(1) by (intro mult_right_mono) simp_all
  finally show ?thesis .
qed

text \<open>
  The quotients \<open>i / n\<close> with \<open>i \<le> n \<le> 2 ^ 53\<close> lie in the normal range (or are 0), so
  the stored offsets and the repeat are within \<open>2 ^ - 53\<close>, relatively, of \<open>i / n\<close> and
  \<open>1 / n\<close>; the error of a sum of a window's offset and repeat against the next offset
  follows.
\<close>

lemma double_ratio_error:
  assumes n: "0 < n" "n \<le> 2 ^ 53" and i: "i \<le> n"
  shows "\<bar>double (real i / real n) - real i / real n\<bar> \<le> real i / real n * 2 powi (- 53)"
proof (cases "i = 0")
  case True
  then show ?thesis by (simp add: double_zero)
next
  case False
  let ?x = "real i / real n"
  have rn: "0 < real n" "real n \<le> 2 ^ 53" using n by (simp_all flip: of_nat_le_iff)
  have ri: "1 \<le> real i" "real i \<le> real n" using False i by simp_all
  have pos: "0 < ?x" using rn ri by simp
  have "1 / 2 ^ 53 \<le> 1 / real n" using rn by (simp add: frac_le)
  also have "\<dots> \<le> ?x" using rn ri by (simp add: divide_right_mono)
  finally have x53: "2 powi (- 53) \<le> ?x" by (simp add: power_int_minus field_simps)
  have "(2::real) powi (- 1022) \<le> 2 powi (- 53)" by (rule p2_mono) simp
  with x53 have lo: "2 powi (- 1022) \<le> ?x" by linarith
  have "?x \<le> 1" using rn ri by simp
  moreover have "(1::real) < 2 powi 1101"
    using p2_mono [of 1 1101] by simp
  ultimately have hi: "?x < 2 powi 1101" by linarith
  show ?thesis using pos lo hi by (rule double_error)
qed

lemma double_ratio_bounds:
  assumes n: "0 < n" "n \<le> 2 ^ 53" and i: "i \<le> n"
  shows "0 \<le> double (real i / real n)"
    and "double (real i / real n) \<le> real i / real n * (1 + 2 powi (- 53))"
    and "real i / real n * (1 - 2 powi (- 53)) \<le> double (real i / real n)"
proof -
  note e = double_ratio_error [OF n i]
  have x: "0 \<le> real i / real n" by simp
  have E: "(2::real) powi (- 53) \<le> 1" using p2_mono [of "- 53" 0] by simp
  show "double (real i / real n) \<le> real i / real n * (1 + 2 powi (- 53))"
    using e by (simp add: abs_le_iff algebra_simps)
  show l: "real i / real n * (1 - 2 powi (- 53)) \<le> double (real i / real n)"
    using e by (simp add: abs_le_iff algebra_simps)
  have "0 \<le> real i / real n * (1 - 2 powi (- 53))"
    using x E by (intro mult_nonneg_nonneg) simp_all
  with l show "0 \<le> double (real i / real n)" by linarith
qed

lemma window_sum_error:
  assumes n: "0 < n" "n \<le> 2 ^ 53" and i: "i < n"
  shows "\<bar>double (real i / real n) + double (1 / real n) - double (real (i + 1) / real n)\<bar>
           \<le> 2 powi (- 52)"
proof -
  define E :: real where "E = 2 powi (- 53)"
  define x where "x = real i / real n"
  define y where "y = real (i + 1) / real n"
  define r where "r = 1 / real n"
  have rn: "0 < real n" using n by simp
  have xy: "x + r = y" by (simp add: x_def y_def r_def add_divide_distrib)
  have y1: "y \<le> 1" "0 \<le> y" using i rn by (simp_all add: y_def)
  have ex: "\<bar>double x - x\<bar> \<le> x * E"
    using double_ratio_error [OF n, of i] i by (simp add: x_def E_def)
  have er: "\<bar>double r - r\<bar> \<le> r * E"
    using double_ratio_error [OF n, of 1] n by (simp add: r_def E_def)
  have ey: "\<bar>double y - y\<bar> \<le> y * E"
    using double_ratio_error [OF n, of "i + 1"] i by (simp add: y_def E_def)
  have E0: "0 \<le> E" by (simp add: E_def)
  have "\<bar>double x + double r - double y\<bar>
      \<le> \<bar>double x - x\<bar> + \<bar>double r - r\<bar> + \<bar>double y - y\<bar>"
    using xy by linarith
  also have "\<dots> \<le> x * E + r * E + y * E" using ex er ey by linarith
  also have "\<dots> = 2 * y * E" unfolding xy [symmetric] by (simp add: algebra_simps)
  also have "\<dots> \<le> 2 * 1 * E" using y1 E0 by (intro mult_right_mono mult_left_mono) simp_all
  also have "\<dots> = 2 powi (- 52)" by (simp add: E_def power_int_minus)
  finally show ?thesis unfolding x_def r_def y_def .
qed

lemma window_fadd_error:
  assumes n: "0 < n" "n \<le> 2 ^ 53" and i: "i < n"
  shows "\<bar>fadd (double (real i / real n)) (double (1 / real n))
            - double (real (i + 1) / real n)\<bar> \<le> 2 powi (- 51)"
proof -
  define E :: real where "E = 2 powi (- 53)"
  define a where "a = double (real i / real n)"
  define r where "r = double (1 / real n)"
  define b where "b = double (real (i + 1) / real n)"
  have rn: "0 < real n" "real n \<le> 2 ^ 53" using n by (simp_all flip: of_nat_le_iff)
  have Ev: "E = 1 / 2 ^ 53" by (simp add: E_def power_int_minus field_simps)
  have s: "\<bar>a + r - b\<bar> \<le> 2 powi (- 52)"
    unfolding a_def r_def b_def using n i by (rule window_sum_error)
  have a0: "0 \<le> a" unfolding a_def using double_ratio_bounds(1) [OF n, of i] i by simp
  have au: "a \<le> real i / real n * (1 + E)"
    unfolding a_def E_def using double_ratio_bounds(2) [OF n, of i] i by simp
  have rl: "1 / real n * (1 - E) \<le> r"
    unfolding r_def E_def using double_ratio_bounds(3) [OF n, of 1] n by simp
  have ru: "r \<le> 1 / real n * (1 + E)"
    unfolding r_def E_def using double_ratio_bounds(2) [OF n, of 1] n by simp
  have "1 / 2 ^ 53 \<le> 1 / real n" using rn by (simp add: frac_le)
  then have "1 / 2 ^ 53 * (1 - E) \<le> 1 / real n * (1 - E)"
    by (intro mult_right_mono) (simp_all add: Ev)
  with rl have rlo: "1 / 2 ^ 54 \<le> r" by (simp add: Ev)
  have "real i / real n + 1 / real n = real (i + 1) / real n"
    by (simp add: add_divide_distrib)
  moreover have "real (i + 1) / real n \<le> 1" using i rn by simp
  ultimately have "(real i / real n + 1 / real n) * (1 + E) \<le> 1 * (1 + E)"
    by (intro mult_right_mono) (simp_all add: Ev)
  then have "real i / real n * (1 + E) + 1 / real n * (1 + E) \<le> 1 + E"
    by (simp only: distrib_right mult_1)
  with au ru have su: "a + r \<le> 1 + E" by linarith
  have pos: "0 < a + r" using a0 rlo by (simp add: add_nonneg_pos)
  have "(2::real) powi (- 1022) \<le> 2 powi (- 54)" by (rule p2_mono) simp
  then have lo: "2 powi (- 1022) \<le> a + r" using a0 rlo by (simp add: power_int_minus field_simps)
  have "(2::real) \<le> 2 powi 1101" using p2_mono [of 1 1101] by simp
  then have hi: "a + r < 2 powi 1101" using su by (simp add: Ev)
  have "\<bar>double (a + r) - (a + r)\<bar> \<le> (a + r) * E"
    unfolding E_def using pos lo hi by (rule double_error)
  also have "\<dots> \<le> (1 + E) * E" using su by (intro mult_right_mono) (simp_all add: Ev)
  also have "\<dots> \<le> 2 powi (- 52)" by (simp add: Ev power_int_minus)
  finally have f: "\<bar>double (a + r) - (a + r)\<bar> \<le> 2 powi (- 52)" .
  have "\<bar>fadd a r - b\<bar> \<le> \<bar>double (a + r) - (a + r)\<bar> + \<bar>a + r - b\<bar>"
    by (simp add: fadd_def)
  also have "\<dots> \<le> 2 powi (- 52) + 2 powi (- 52)" using f s by linarith
  also have "\<dots> = 2 powi (- 51)" by (simp add: power_int_minus)
  finally show ?thesis unfolding a_def r_def b_def .
qed

lemma stripTexture_wall:
  "i < n \<Longrightarrow>
     offset (stripTexture (FoldingWallWith n w h tex ! i)) = (double (real i / real n), 0)
     \<and> repeat (stripTexture (FoldingWallWith n w h tex ! i)) = (double (1 / real n), 1)"
  by (simp add: FoldingWallWith_nth stripTexture_def fdiv_def)

lemma double_quarters:
  "double (1 / 4) = 1 / 4" "double (2 / 4) = 1 / 2" "double (3 / 4) = 3 / 4"
  "double (1 / 2) = 1 / 2" "double 1 = 1"
  by (simp_all add: double_def binexp_numeral roundEven_def Let_def)

text \<open>
  Claim C2, as the source has it. For a positive strip count \<open>n \<le> 2 ^ 53\<close>, the texture
  of strip \<open>i\<close> has the horizontal offset \<open>double (i / n)\<close> and the horizontal repeat
  \<open>double (1 / n)\<close>, the doubles nearest to \<open>i / n\<close> and \<open>1 / n\<close> and within the relative
  error \<open>2 ^ - 53\<close> of them (vertical offset 0, vertical repeat 1). The first offset is 0.
  The windows partition \<open>[0, 1]\<close> up to rounding: an offset plus the repeat differs from
  the next offset by at most \<open>2 ^ - 52\<close>, and by at most \<open>2 ^ - 51\<close> when the sum is itself
  computed in doubles; the same holds for the last offset plus the repeat against 1.
\<close>

theorem texture_windows_rounded:
  fixes n :: nat and w h :: real and tex :: Texture
  assumes n: "0 < n" "n \<le> 2 ^ 53"
  shows "(\<forall>i<n. offset (stripTexture (FoldingWallWith n w h tex ! i))
                = (double (real i / real n), 0)
            \<and> repeat (stripTexture (FoldingWallWith n w h tex ! i))
                = (double (1 / real n), 1)
            \<and> \<bar>fst (offset (stripTexture (FoldingWallWith n w h tex ! i))) - real i / real n\<bar>
                \<le> real i / real n * 2 powi (- 53)
            \<and> \<bar>fst (repeat (stripTexture (FoldingWallWith n w h tex ! i))) - 1 / real n\<bar>
                \<le> 1 / real n * 2 powi (- 53))
    \<and> fst (offset (stripTexture (FoldingWallWith n w h tex ! 0))) = 0
    \<and> (\<forall>i. i + 1 < n \<longrightarrow>
          \<bar>fst (offset (stripTexture (FoldingWallWith n w h tex ! i)))
             + fst (repeat (stripTexture (FoldingWallWith n w h tex ! i)))
             - fst (offset (stripTexture (FoldingWallWith n w h tex ! (i + 1))))\<bar>
            \<le> 2 powi (- 52)
        \<and> \<bar>fadd (fst (offset (stripTexture (FoldingWallWith n w h tex ! i))))
                  (fst (repeat (stripTexture (FoldingWallWith n w h tex ! i))))
             - fst (offset (stripTexture (FoldingWallWith n w h tex ! (i + 1))))\<bar>
            \<le> 2 powi (- 51))
    \<and> \<bar>fst (offset (stripTexture (FoldingWallWith n w h tex ! (n - 1))))
          + fst (repeat (stripTexture (FoldingWallWith n w h tex ! (n - 1)))) - 1\<bar>
         \<le> 2 powi (- 52)
    \<and> \<bar>fadd (fst (offset (stripTexture (FoldingWallWith n w h tex ! (n - 1)))))
               (fst (repeat (stripTexture (FoldingWallWith n w h tex ! (n - 1))))) - 1\<bar>
         \<le> 2 powi (- 51)"
proof -
  let ?t = "\<lambda>i. stripTexture (FoldingWallWith n w h tex ! i)"
  have 1: "\<forall>i<n. offset (?t i) = (double (real i / real n), 0)
            \<and> repeat (?t i) = (double (1 / real n), 1)
            \<and> \<bar>fst (offset (?t i)) - real i / real n\<bar> \<le> real i / real n * 2 powi (- 53)
            \<and> \<bar>fst (repeat (?t i)) - 1 / real n\<bar> \<le> 1 / real n * 2 powi (- 53)"
  proof (intro allI impI)
    fix i assume i: "i < n"
    have e: "\<bar>double (real i / real n) - real i / real n\<bar> \<le> real i / real n * 2 powi (- 53)"
      using i by (intro double_ratio_error n) simp
    have r: "\<bar>double (1 / real n) - 1 / real n\<bar> \<le> 1 / real n * 2 powi (- 53)"
      using double_ratio_error [OF n, of 1] n by simp
    show "offset (?t i) = (double (real i / real n), 0)
            \<and> repeat (?t i) = (double (1 / real n), 1)
            \<and> \<bar>fst (offset (?t i)) - real i / real n\<bar> \<le> real i / real n * 2 powi (- 53)
            \<and> \<bar>fst (repeat (?t i)) - 1 / real n\<bar> \<le> 1 / real n * 2 powi (- 53)"
      unfolding stripTexture_wall [OF i, THEN conjunct1] stripTexture_wall [OF i, THEN conjunct2]
      using e r by simp
  qed
  have 2: "fst (offset (?t 0)) = 0"
    using n by (simp add: stripTexture_wall double_zero)
  have 3: "\<forall>i. i + 1 < n \<longrightarrow>
          \<bar>fst (offset (?t i)) + fst (repeat (?t i)) - fst (offset (?t (i + 1)))\<bar> \<le> 2 powi (- 52)
        \<and> \<bar>fadd (fst (offset (?t i))) (fst (repeat (?t i))) - fst (offset (?t (i + 1)))\<bar>
            \<le> 2 powi (- 51)"
  proof (intro allI impI)
    fix i assume i: "i + 1 < n"
    then have i': "i < n" by simp
    show "\<bar>fst (offset (?t i)) + fst (repeat (?t i)) - fst (offset (?t (i + 1)))\<bar> \<le> 2 powi (- 52)
        \<and> \<bar>fadd (fst (offset (?t i))) (fst (repeat (?t i))) - fst (offset (?t (i + 1)))\<bar>
            \<le> 2 powi (- 51)"
      unfolding stripTexture_wall [OF i', THEN conjunct1] stripTexture_wall [OF i', THEN conjunct2]
        stripTexture_wall [OF i, THEN conjunct1] fst_conv
      using window_sum_error [OF n i'] window_fadd_error [OF n i'] by simp
  qed
  have l: "n - 1 < n" using n by simp
  have full: "double (real (n - 1 + 1) / real n) = 1"
    using n by (simp add: double_one)
  have 4: "\<bar>fst (offset (?t (n - 1))) + fst (repeat (?t (n - 1))) - 1\<bar> \<le> 2 powi (- 52)"
    unfolding stripTexture_wall [OF l, THEN conjunct1] stripTexture_wall [OF l, THEN conjunct2]
      fst_conv
    using window_sum_error [OF n l] unfolding full .
  have 5: "\<bar>fadd (fst (offset (?t (n - 1)))) (fst (repeat (?t (n - 1)))) - 1\<bar> \<le> 2 powi (- 51)"
    unfolding stripTexture_wall [OF l, THEN conjunct1] stripTexture_wall [OF l, THEN conjunct2]
      fst_conv
    using window_fadd_error [OF n l] unfolding full .
  from 1 2 3 4 5 show ?thesis by blast
qed

text \<open>
  The specification's scenario: with four strips the offsets are exactly
  \<open>0, 1/4, 1/2, 3/4\<close>, every repeat is exactly \<open>1/4\<close>, and the sums in doubles meet the
  next offset and 1 exactly.
\<close>

theorem texture_windows_rounded_witness:
  "(0::nat) < 4 \<and> (4::nat) \<le> 2 ^ 53
   \<and> map (\<lambda>p. fst (offset (stripTexture p))) (FoldingWallWith 4 8 4 defaultTexture)
       = [0, 1 / 4, 1 / 2, 3 / 4]
   \<and> map (\<lambda>p. fst (repeat (stripTexture p))) (FoldingWallWith 4 8 4 defaultTexture)
       = [1 / 4, 1 / 4, 1 / 4, 1 / 4]
   \<and> fadd 0 (1 / 4) = 1 / 4 \<and> fadd (1 / 4) (1 / 4) = 1 / 2 \<and> fadd (1 / 2) (1 / 4) = 3 / 4
   \<and> fadd (3 / 4) (1 / 4) = 1
   \<and> \<bar>fst (offset (stripTexture (FoldingWallWith 4 8 4 defaultTexture ! 3)))
        + fst (repeat (stripTexture (FoldingWallWith 4 8 4 defaultTexture ! 3))) - 1\<bar>
       \<le> 2 powi (- 52)"
proof -
  have h: "(0::nat) < 4" "(4::nat) \<le> 2 ^ 53" by simp_all
  note th = texture_windows_rounded [OF h, of 8 4 defaultTexture]
  have o: "map (\<lambda>p. fst (offset (stripTexture p))) (FoldingWallWith 4 8 4 defaultTexture)
       = [0, 1 / 4, 1 / 2, 3 / 4]"
    by (simp add: FoldingWallWith_def strips_def stripTexture_def upt_rec fdiv_def
          double_zero double_quarters)
  have r: "map (\<lambda>p. fst (repeat (stripTexture p))) (FoldingWallWith 4 8 4 defaultTexture)
       = [1 / 4, 1 / 4, 1 / 4, 1 / 4]"
    by (simp add: FoldingWallWith_def strips_def stripTexture_def upt_rec fdiv_def
          double_quarters)
  have s: "fadd 0 (1 / 4) = 1 / 4" "fadd (1 / 4) (1 / 4) = 1 / 2" "fadd (1 / 2) (1 / 4) = 3 / 4"
    "fadd (3 / 4) (1 / 4) = 1"
    by (simp_all add: fadd_def double_quarters)
  from th have l: "\<bar>fst (offset (stripTexture (FoldingWallWith 4 8 4 defaultTexture ! (4 - 1))))
        + fst (repeat (stripTexture (FoldingWallWith 4 8 4 defaultTexture ! (4 - 1)))) - 1\<bar>
       \<le> 2 powi (- 52)"
    by blast
  from h o r s l show ?thesis by simp
qed

text \<open>
  Claim C2 as stated, with exact equalities, fails on the wall the source builds (24
  strips). The offset of strip 4 is the double \<open>6004799503160661 / 2 ^ 55\<close> and the repeat
  the double \<open>6004799503160661 / 2 ^ 57\<close>; their sum in doubles is
  \<open>7505999378950826 / 2 ^ 55\<close> (0.20833333333333331), while the offset of strip 5 is
  \<open>7505999378950827 / 2 ^ 55\<close> (0.20833333333333334). The exact sum of the two stored
  doubles differs from the offset of strip 5 as well.
\<close>

theorem texture_windows_partition_counterexample:
  "fadd (fst (offset (stripTexture (FoldingWall defaultTexture ! 4))))
        (fst (repeat (stripTexture (FoldingWall defaultTexture ! 4))))
     \<noteq> fst (offset (stripTexture (FoldingWall defaultTexture ! 5)))
   \<and> fst (offset (stripTexture (FoldingWall defaultTexture ! 4)))
       + fst (repeat (stripTexture (FoldingWall defaultTexture ! 4)))
     \<noteq> fst (offset (stripTexture (FoldingWall defaultTexture ! 5)))"
proof -
  have o4: "fst (offset (stripTexture (FoldingWall defaultTexture ! 4))) = double (4 / 24)"
    and r4: "fst (repeat (stripTexture (FoldingWall defaultTexture ! 4))) = double (1 / 24)"
    and o5: "fst (offset (stripTexture (FoldingWall defaultTexture ! 5))) = double (5 / 24)"
    by (simp_all add: FoldingWall_def STRIP_COUNT_def stripTexture_wall)
  have d4: "double (4 / 24) = 6004799503160661 / 2 ^ 55"
    and d1: "double (1 / 24) = 6004799503160661 / 2 ^ 57"
    and d5: "double (5 / 24) = 7505999378950827 / 2 ^ 55"
    by (simp_all add: double_def binexp_numeral roundEven_def Let_def)
  have s: "fadd (6004799503160661 / 2 ^ 55) (6004799503160661 / 2 ^ 57)
             = 7505999378950826 / 2 ^ 55"
    by (simp add: fadd_def double_def binexp_numeral roundEven_def Let_def)
  show ?thesis unfolding o4 r4 o5 d4 d1 d5 s by simp
qed

section \<open>One frame\<close>

lemma useFrame_mounted:
  assumes "meshRef s = Some m"
  shows "useFrame p inp s =
     \<lparr> targetRotation = lerp (targetRotation s) (angle p inp) (10 * delta inp),
       targetX = lerp (targetX s)
                   (newX p (lerp (targetRotation s) (angle p inp) (10 * delta inp)))
                   (8 * delta inp),
       meshRef = Some (m\<lparr>
         rotation_y := lerp (targetRotation s) (angle p inp) (10 * delta inp),
         position_x := lerp (targetX s)
                   (newX p (lerp (targetRotation s) (angle p inp) (10 * delta inp)))
                   (8 * delta inp),
         position_z := lerp (position_z m)
                   (zOffset p (lerp (targetRotation s) (angle p inp) (10 * delta inp)))
                   (8 * delta inp),
         rotation_x := lerp (rotation_x m) (tilt inp) (5 * delta inp) \<rparr>) \<rparr>"
  using assms by (simp add: useFrame_def Let_def)

lemma useFrame_unmounted: "meshRef s = None \<Longrightarrow> useFrame p inp s = s"
  by (simp add: useFrame_def)

lemma current_useFrame:
  assumes "meshRef s = Some m"
  shows "currentRotationY (useFrame p inp s)
           = lerp (currentRotationY s) (angle p inp) (10 * delta inp)"
    and "currentPositionX (useFrame p inp s)
           = lerp (currentPositionX s) (newX p (currentRotationY (useFrame p inp s)))
               (8 * delta inp)"
    and "currentPositionZ (useFrame p inp s)
           = lerp (currentPositionZ s) (zOffset p (currentRotationY (useFrame p inp s)))
               (8 * delta inp)"
    and "currentTiltX (useFrame p inp s)
           = lerp (currentTiltX s) (tilt inp) (5 * delta inp)"
  using assms
  by (simp_all add: useFrame_mounted [OF assms] currentRotationY_def currentPositionX_def
        currentPositionZ_def currentTiltX_def)

lemma initialState_simps:
  "meshRef (initialState p) = Some (mountedMesh p)"
  "currentRotationY (initialState p) = 0"
  "currentPositionX (initialState p) = 0"
  "currentPositionZ (initialState p) = 0"
  "currentTiltX (initialState p) = 0"
  by (simp_all add: initialState_def currentRotationY_def currentPositionX_def
        currentPositionZ_def currentTiltX_def mountedMesh_def)

lemma compression_clamp: "compression px = clamp (\<bar>px\<bar> * 1.5) 0 1"
  by (simp add: compression_def clamp_def max_def min_def)

lemma compression_saturated: "compression px = 1 \<longleftrightarrow> 2 / 3 \<le> \<bar>px\<bar>"
  by (auto simp add: compression_def max_def min_def)

lemma angle_example: "angle (exampleStrip 0 a) (exampleInput 1 py 0 d) = a"
  by (simp add: angle_def exampleStrip_def exampleInput_def dir_def compression_def wave_def)

lemma exampleStrip_geometry:
  "stripWidth (exampleStrip i a) = 2"
  "initialX (exampleStrip i a) = 2 * real i - 3"
  "index (exampleStrip i a) = i"
  by (simp_all add: exampleStrip_def stripWidth_def initialX_def)

text \<open>
  Claim C3. The value toward which a frame moves the rotation is
  \<open>dir * (maxFoldAngle * compression + wave * 0.2)\<close>, with \<open>dir\<close> 1 for an even index
  and -1 for an odd one, \<open>wave = sin (time * 0.5 + index * 0.1) * 0.1\<close> and
  \<open>compression\<close> the value \<open>\<bar>pointer_x\<bar> * 1.5\<close> clamped to \<open>[0, 1]\<close>. The compression is
  1 exactly when \<open>2 / 3 \<le> \<bar>pointer_x\<bar>\<close>, in particular at \<open>pointer_x = 1\<close> and
  \<open>pointer_x = - 1\<close>, where a vanishing wave leaves \<open>dir * maxFoldAngle\<close>.
\<close>

theorem target_rotation_formula:
  "angle p inp =
      (if even (index p) then 1 else - 1) *
        (maxFoldAngle (globalConfig p) * clamp (\<bar>pointer_x inp\<bar> * 1.5) 0 1
         + sin (time inp * 0.5 + real (index p) * 0.1) * 0.1 * 0.2)
   \<and> dir (index p) = (if even (index p) then 1 else - 1)
   \<and> wave (time inp) (index p) = sin (time inp * 0.5 + real (index p) * 0.1) * 0.1
   \<and> compression (pointer_x inp) = clamp (\<bar>pointer_x inp\<bar> * 1.5) 0 1
   \<and> (compression (pointer_x inp) = 1 \<longleftrightarrow> 2 / 3 \<le> \<bar>pointer_x inp\<bar>)
   \<and> compression 1 = 1 \<and> compression (- 1) = 1
   \<and> (\<bar>pointer_x inp\<bar> = 1 \<and> wave (time inp) (index p) = 0 \<longrightarrow>
        angle p inp = dir (index p) * maxFoldAngle (globalConfig p))
   \<and> (\<forall>m. meshRef s = Some m \<longrightarrow>
        targetRotation (useFrame p inp s)
          = lerp (targetRotation s) (angle p inp) (10 * delta inp))"
proof -
  have d: "dir (index p) = (if even (index p) then 1 else - 1)"
    by (simp add: dir_def even_iff_mod_2_eq_zero)
  have w: "wave (time inp) (index p) = sin (time inp * 0.5 + real (index p) * 0.1) * 0.1"
    by (simp add: wave_def)
  have c: "compression (pointer_x inp) = clamp (\<bar>pointer_x inp\<bar> * 1.5) 0 1"
    by (rule compression_clamp)
  have a: "angle p inp =
      (if even (index p) then 1 else - 1) *
        (maxFoldAngle (globalConfig p) * clamp (\<bar>pointer_x inp\<bar> * 1.5) 0 1
         + sin (time inp * 0.5 + real (index p) * 0.1) * 0.1 * 0.2)"
    unfolding angle_def d w c by simp
  have s: "compression (pointer_x inp) = 1 \<longleftrightarrow> 2 / 3 \<le> \<bar>pointer_x inp\<bar>"
    by (rule compression_saturated)
  have e: "compression 1 = 1" "compression (- 1) = 1"
    by (simp_all add: compression_def)
  have f: "\<bar>pointer_x inp\<bar> = 1 \<and> wave (time inp) (index p) = 0 \<longrightarrow>
        angle p inp = dir (index p) * maxFoldAngle (globalConfig p)"
    by (simp add: angle_def compression_def)
  have u: "\<forall>m. meshRef s = Some m \<longrightarrow>
        targetRotation (useFrame p inp s)
          = lerp (targetRotation s) (angle p inp) (10 * delta inp)"
    by (simp add: useFrame_mounted)
  from a d w c s e f u show ?thesis by blast
qed

theorem target_rotation_formula_witness:
  "\<bar>pointer_x (exampleInput 1 0 0 (1 / 60))\<bar> = 1
   \<and> wave (time (exampleInput 1 0 0 (1 / 60))) (index (exampleStrip 0 (pi / 2.2))) = 0
   \<and> compression (pointer_x (exampleInput 1 0 0 (1 / 60))) = 1
   \<and> angle (exampleStrip 0 (pi / 2.2)) (exampleInput 1 0 0 (1 / 60)) = pi / 2.2
   \<and> meshRef (initialState (exampleStrip 0 (pi / 2.2)))
       = Some (mountedMesh (exampleStrip 0 (pi / 2.2)))
   \<and> targetRotation (useFrame (exampleStrip 0 (pi / 2.2)) (exampleInput 1 0 0 (1 / 60))
        (initialState (exampleStrip 0 (pi / 2.2)))) = pi / 13.2"
proof -
  let ?p = "exampleStrip 0 (pi / 2.2)"
  let ?inp = "exampleInput 1 0 0 (1 / 60)"
  have px: "\<bar>pointer_x ?inp\<bar> = 1" and px': "2 / 3 \<le> \<bar>pointer_x ?inp\<bar>"
    by (simp_all add: exampleInput_def)
  have w: "wave (time ?inp) (index ?p) = 0"
    by (simp add: exampleInput_def exampleStrip_def wave_def)
  have d: "dir (index ?p) = 1" "maxFoldAngle (globalConfig ?p) = pi / 2.2"
    by (simp_all add: exampleStrip_def dir_def)
  have z: "targetRotation (initialState ?p) = 0" "delta ?inp = 1 / 60"
    by (simp_all add: initialState_def exampleInput_def)
  note th = target_rotation_formula [of ?p ?inp "initialState ?p"]
  from th px' have c: "compression (pointer_x ?inp) = 1" by blast
  from th px w have "angle ?p ?inp = dir (index ?p) * maxFoldAngle (globalConfig ?p)"
    by blast
  then have a: "angle ?p ?inp = pi / 2.2" unfolding d by simp
  from th initialState_simps(1) have "targetRotation (useFrame ?p ?inp (initialState ?p))
      = lerp (targetRotation (initialState ?p)) (angle ?p ?inp) (10 * delta ?inp)"
    by blast
  then have r: "targetRotation (useFrame ?p ?inp (initialState ?p)) = pi / 13.2"
    unfolding a z by (simp add: lerp_def)
  from px w c a initialState_simps(1) r show ?thesis by blast
qed

text \<open>
  Claim C4, as the source has it. On a mounted mesh every smoothed value advances by linear
  interpolation toward its target with the factor \<open>10 * delta\<close> (rotation),
  \<open>8 * delta\<close> (both positions) and \<open>5 * delta\<close> (tilt). The factor is not clamped; it is
  the clamped factor \<open>min 1 (k * delta)\<close> whenever \<open>delta \<le> 1 / k\<close>, so for all four
  values when \<open>delta \<le> 1 / 10\<close>.
\<close>

theorem smoothing_unclamped:
  assumes m: "meshRef s = Some m"
  shows "currentRotationY (useFrame p inp s)
           = lerp (currentRotationY s) (angle p inp) (10 * delta inp)
    \<and> currentPositionX (useFrame p inp s)
           = lerp (currentPositionX s) (newX p (currentRotationY (useFrame p inp s)))
               (8 * delta inp)
    \<and> currentPositionZ (useFrame p inp s)
           = lerp (currentPositionZ s) (zOffset p (currentRotationY (useFrame p inp s)))
               (8 * delta inp)
    \<and> currentTiltX (useFrame p inp s)
           = lerp (currentTiltX s) (tilt inp) (5 * delta inp)
    \<and> (delta inp \<le> 1 / 10 \<longrightarrow>
          currentRotationY (useFrame p inp s)
           = lerp (currentRotationY s) (angle p inp) (min 1 (10 * delta inp)))
    \<and> (delta inp \<le> 1 / 8 \<longrightarrow>
          currentPositionX (useFrame p inp s)
           = lerp (currentPositionX s) (newX p (currentRotationY (useFrame p inp s)))
               (min 1 (8 * delta inp))
        \<and> currentPositionZ (useFrame p inp s)
           = lerp (currentPositionZ s) (zOffset p (currentRotationY (useFrame p inp s)))
               (min 1 (8 * delta inp)))
    \<and> (delta inp \<le> 1 / 5 \<longrightarrow>
          currentTiltX (useFrame p inp s)
           = lerp (currentTiltX s) (tilt inp) (min 1 (5 * delta inp)))"
proof -
  note c = current_useFrame [OF m, of p inp]
  have r: "delta inp \<le> 1 / 10 \<Longrightarrow> min 1 (10 * delta inp) = 10 * delta inp" by simp
  have x: "delta inp \<le> 1 / 8 \<Longrightarrow> min 1 (8 * delta inp) = 8 * delta inp" by simp
  have t: "delta inp \<le> 1 / 5 \<Longrightarrow> min 1 (5 * delta inp) = 5 * delta inp" by simp
  show ?thesis using c r x t by presburger
qed

theorem smoothing_unclamped_witness:
  "meshRef (initialState (exampleStrip 0 (pi / 2.2)))
     = Some (mountedMesh (exampleStrip 0 (pi / 2.2)))
   \<and> delta (exampleInput 1 1 0 (1 / 20)) \<le> 1 / 10
   \<and> currentRotationY (useFrame (exampleStrip 0 (pi / 2.2)) (exampleInput 1 1 0 (1 / 20))
        (initialState (exampleStrip 0 (pi / 2.2)))) = pi / 4.4
   \<and> currentTiltX (useFrame (exampleStrip 0 (pi / 2.2)) (exampleInput 1 1 0 (1 / 20))
        (initialState (exampleStrip 0 (pi / 2.2)))) = 1 / 20"
proof -
  let ?p = "exampleStrip 0 (pi / 2.2)"
  let ?inp = "exampleInput 1 1 0 (1 / 20)"
  have i: "meshRef (initialState ?p) = Some (mountedMesh ?p)"
    by (simp add: initialState_def)
  have d: "delta ?inp = 1 / 20"
    by (simp add: exampleInput_def)
  have t: "tilt ?inp = 1 / 5"
    by (simp add: tilt_def exampleInput_def)
  note th = smoothing_unclamped [OF i, of ?p ?inp]
  from th have "currentRotationY (useFrame ?p ?inp (initialState ?p))
      = lerp (currentRotationY (initialState ?p)) (angle ?p ?inp) (10 * delta ?inp)"
    by (rule conjunct1)
  then have r: "currentRotationY (useFrame ?p ?inp (initialState ?p)) = pi / 4.4"
    by (simp add: initialState_simps d angle_example lerp_def)
  from th have "currentTiltX (useFrame ?p ?inp (initialState ?p))
      = lerp (currentTiltX (initialState ?p)) (tilt ?inp) (5 * delta ?inp)"
    by blast
  then have x: "currentTiltX (useFrame ?p ?inp (initialState ?p)) = 1 / 20"
    by (simp add: initialState_simps d t lerp_def)
  from i d r x show ?thesis by simp
qed

text \<open>
  Claim C4 as stated fails for a long frame. From the initial state, with the pointer at the
  right edge and a frame of half a second, the rotation of strip 0 becomes
  \<open>lerp 0 (pi / 2.2) 5 = 5 * (pi / 2.2)\<close>, not \<open>lerp 0 (pi / 2.2) (min 1 5) = pi / 2.2\<close>.
\<close>

theorem smoothing_clamped_counterexample:
  "currentRotationY (useFrame (exampleStrip 0 (pi / 2.2)) (exampleInput 1 0 0 (1 / 2))
        (initialState (exampleStrip 0 (pi / 2.2))))
    \<noteq> lerp (currentRotationY (initialState (exampleStrip 0 (pi / 2.2))))
        (angle (exampleStrip 0 (pi / 2.2)) (exampleInput 1 0 0 (1 / 2)))
        (min 1 (10 * delta (exampleInput 1 0 0 (1 / 2))))"
proof -
  have i: "meshRef (initialState (exampleStrip 0 (pi / 2.2)))
             = Some (mountedMesh (exampleStrip 0 (pi / 2.2)))"
    by (simp add: initialState_def)
  have d: "delta (exampleInput 1 0 0 (1 / 2)) = 1 / 2"
    by (simp add: exampleInput_def)
  have z: "currentRotationY (initialState (exampleStrip 0 (pi / 2.2))) = 0"
    by (simp add: initialState_def currentRotationY_def)
  show ?thesis
    unfolding current_useFrame(1) [OF i] angle_example d z
    by (simp add: lerp_def)
qed

text \<open>
  Claim C5. On a mounted mesh, a frame first stores the smoothed rotation (in the ref and in
  the mesh) and then moves the horizontal position toward
  \<open>initialX * cos \<bar>rotation\<bar>\<close> and the depth toward
  \<open>sin \<bar>rotation\<bar> * (stripWidth * 0.25) * dir\<close>, where \<open>rotation\<close> is the value the same
  frame has just stored.
\<close>

theorem position_targets_from_smoothed_rotation:
  assumes m: "meshRef s = Some m"
  shows "\<exists>m'. meshRef (useFrame p inp s) = Some m'
     \<and> rotation_y m' = targetRotation (useFrame p inp s)
     \<and> targetX (useFrame p inp s)
         = lerp (targetX s) (initialX p * cos \<bar>targetRotation (useFrame p inp s)\<bar>)
             (8 * delta inp)
     \<and> position_x m' = targetX (useFrame p inp s)
     \<and> position_z m'
         = lerp (position_z m)
             (sin \<bar>targetRotation (useFrame p inp s)\<bar> * (stripWidth p * 0.25) * dir (index p))
             (8 * delta inp)"
  by (simp add: useFrame_mounted [OF m] newX_def zOffset_def)

theorem position_targets_from_smoothed_rotation_witness:
  "meshRef (initialState (exampleStrip 0 (pi / 2.2)))
     = Some (mountedMesh (exampleStrip 0 (pi / 2.2)))
   \<and> targetRotation (useFrame (exampleStrip 0 (pi / 2.2)) (exampleInput 1 0 0 (1 / 20))
        (initialState (exampleStrip 0 (pi / 2.2)))) = pi / 4.4
   \<and> targetX (useFrame (exampleStrip 0 (pi / 2.2)) (exampleInput 1 0 0 (1 / 20))
        (initialState (exampleStrip 0 (pi / 2.2)))) = - (6 / 5) * cos (pi / 4.4)
   \<and> currentPositionZ (useFrame (exampleStrip 0 (pi / 2.2)) (exampleInput 1 0 0 (1 / 20))
        (initialState (exampleStrip 0 (pi / 2.2)))) = (1 / 5) * sin (pi / 4.4)"
proof -
  let ?p = "exampleStrip 0 (pi / 2.2)"
  let ?inp = "exampleInput 1 0 0 (1 / 20)"
  let ?s = "useFrame ?p ?inp (initialState ?p)"
  have d: "delta ?inp = 1 / 20"
    by (simp add: exampleInput_def)
  have r: "targetRotation ?s = pi / 4.4"
    using current_useFrame(1) [OF initialState_simps(1), of ?p ?inp]
    by (simp add: currentRotationY_def initialState_def d angle_example lerp_def)
  have pz: "position_z (mountedMesh ?p) = 0" "targetX (initialState ?p) = 0"
    by (simp_all add: mountedMesh_def initialState_def)
  have pos: "0 \<le> pi / 4.4" by simp
  obtain m' where m': "meshRef ?s = Some m'"
    and x: "targetX ?s = lerp (targetX (initialState ?p))
              (initialX ?p * cos \<bar>targetRotation ?s\<bar>) (8 * delta ?inp)"
    and z: "position_z m' = lerp (position_z (mountedMesh ?p))
              (sin \<bar>targetRotation ?s\<bar> * (stripWidth ?p * 0.25) * dir (index ?p))
              (8 * delta ?inp)"
    using position_targets_from_smoothed_rotation [OF initialState_simps(1), of ?p ?inp]
    by blast
  have x': "targetX ?s = - (6 / 5) * cos (pi / 4.4)"
    unfolding x r d pz abs_of_nonneg [OF pos] exampleStrip_geometry
    by (simp add: lerp_def)
  have z': "currentPositionZ ?s = (1 / 5) * sin (pi / 4.4)"
    unfolding currentPositionZ_def m' option.case z r d pz abs_of_nonneg [OF pos]
      exampleStrip_geometry
    by (simp add: lerp_def dir_def)
  from initialState_simps(1) r x' z' show ?thesis by blast
qed

text \<open>
  Claim C10. Two inputs with the same \<open>pointer_x\<close>, elapsed time and frame delta give,
  from the same state, the same rotation, horizontal position and depth, in the refs and in
  the mesh: \<open>pointer_y\<close> reaches the tilt only.
\<close>

theorem pointerY_only_tilt:
  assumes "pointer_x inp' = pointer_x inp" "time inp' = time inp" "delta inp' = delta inp"
  shows "currentRotationY (useFrame p inp' s) = currentRotationY (useFrame p inp s)
    \<and> currentPositionX (useFrame p inp' s) = currentPositionX (useFrame p inp s)
    \<and> currentPositionZ (useFrame p inp' s) = currentPositionZ (useFrame p inp s)
    \<and> map_option rotation_y (meshRef (useFrame p inp' s))
        = map_option rotation_y (meshRef (useFrame p inp s))
    \<and> map_option position_x (meshRef (useFrame p inp' s))
        = map_option position_x (meshRef (useFrame p inp s))"
proof (cases "meshRef s")
  case None
  then show ?thesis by (simp add: useFrame_unmounted)
next
  case (Some m)
  have a: "angle p inp' = angle p inp" using assms by (simp add: angle_def)
  show ?thesis
    by (simp add: useFrame_mounted [OF Some] a assms currentRotationY_def currentPositionX_def
        currentPositionZ_def)
qed

theorem pointerY_only_tilt_witness:
  "pointer_x (exampleInput 1 1 0 (1 / 20)) = pointer_x (exampleInput 1 0 0 (1 / 20))
   \<and> time (exampleInput 1 1 0 (1 / 20)) = time (exampleInput 1 0 0 (1 / 20))
   \<and> delta (exampleInput 1 1 0 (1 / 20)) = delta (exampleInput 1 0 0 (1 / 20))
   \<and> currentRotationY (useFrame (exampleStrip 0 (pi / 2.2)) (exampleInput 1 1 0 (1 / 20))
        (initialState (exampleStrip 0 (pi / 2.2))))
      = currentRotationY (useFrame (exampleStrip 0 (pi / 2.2)) (exampleInput 1 0 0 (1 / 20))
        (initialState (exampleStrip 0 (pi / 2.2))))
   \<and> currentTiltX (useFrame (exampleStrip 0 (pi / 2.2)) (exampleInput 1 1 0 (1 / 20))
        (initialState (exampleStrip 0 (pi / 2.2)))) = 1 / 20
   \<and> currentTiltX (useFrame (exampleStrip 0 (pi / 2.2)) (exampleInput 1 0 0 (1 / 20))
        (initialState (exampleStrip 0 (pi / 2.2)))) = 0"
proof -
  let ?p = "exampleStrip 0 (pi / 2.2)"
  have h: "pointer_x (exampleInput 1 1 0 (1 / 20)) = pointer_x (exampleInput 1 0 0 (1 / 20))"
     "time (exampleInput 1 1 0 (1 / 20)) = time (exampleInput 1 0 0 (1 / 20))"
     "delta (exampleInput 1 1 0 (1 / 20)) = delta (exampleInput 1 0 0 (1 / 20))"
    by (simp_all add: exampleInput_def)
  note th = pointerY_only_tilt [OF h, of ?p "initialState ?p"]
  have t1: "currentTiltX (useFrame ?p (exampleInput 1 1 0 (1 / 20)) (initialState ?p)) = 1 / 20"
    unfolding current_useFrame(4) [OF initialState_simps(1)] initialState_simps
    by (simp add: lerp_def tilt_def exampleInput_def)
  have t0: "currentTiltX (useFrame ?p (exampleInput 1 0 0 (1 / 20)) (initialState ?p)) = 0"
    unfolding current_useFrame(4) [OF initialState_simps(1)] initialState_simps
    by (simp add: lerp_def tilt_def exampleInput_def)
  from h th t1 t0 show ?thesis by blast
qed

section \<open>Successive frames with a constant input\<close>

text \<open>
  A mounted mesh stays mounted, so every frame of a run takes the second branch of the
  callback.
\<close>

lemma useFrame_keeps_mesh:
  "meshRef s \<noteq> None \<Longrightarrow> meshRef (useFrame p inp s) \<noteq> None"
  by (auto simp add: useFrame_mounted)

lemma frames_keep_mesh:
  "meshRef s \<noteq> None \<Longrightarrow> meshRef (frames p inp k s) \<noteq> None"
  by (induction k) (simp_all add: useFrame_keeps_mesh)

lemma frames_mounted:
  assumes "meshRef s = Some m"
  obtains m' where "meshRef (frames p inp k s) = Some m'"
  using frames_keep_mesh [of s p inp k] assms by auto

lemma frames_one: "frames p inp 1 s = useFrame p inp s"
  by simp

lemma lerp_error: "lerp x y t - y = (1 - t) * (x - y)"
  by (simp add: lerp_def algebra_simps)

lemma lerp_error_moving: "lerp x y t - L = (1 - t) * (x - L) + t * (y - L)"
  by (simp add: lerp_def algebra_simps)

lemma frames_step:
  assumes "meshRef s = Some m"
  shows "currentRotationY (frames p inp (Suc k) s)
           = lerp (currentRotationY (frames p inp k s)) (angle p inp) (10 * delta inp)"
    and "currentPositionX (frames p inp (Suc k) s)
           = lerp (currentPositionX (frames p inp k s))
               (newX p (currentRotationY (frames p inp (Suc k) s))) (8 * delta inp)"
    and "currentPositionZ (frames p inp (Suc k) s)
           = lerp (currentPositionZ (frames p inp k s))
               (zOffset p (currentRotationY (frames p inp (Suc k) s))) (8 * delta inp)"
    and "currentTiltX (frames p inp (Suc k) s)
           = lerp (currentTiltX (frames p inp k s)) (tilt inp) (5 * delta inp)"
proof -
  obtain m' where m': "meshRef (frames p inp k s) = Some m'"
    using assms by (rule frames_mounted)
  show "currentRotationY (frames p inp (Suc k) s)
           = lerp (currentRotationY (frames p inp k s)) (angle p inp) (10 * delta inp)"
    using current_useFrame(1) [OF m'] by simp
  show "currentPositionX (frames p inp (Suc k) s)
           = lerp (currentPositionX (frames p inp k s))
               (newX p (currentRotationY (frames p inp (Suc k) s))) (8 * delta inp)"
    using current_useFrame(2) [OF m'] by simp
  show "currentPositionZ (frames p inp (Suc k) s)
           = lerp (currentPositionZ (frames p inp k s))
               (zOffset p (currentRotationY (frames p inp (Suc k) s))) (8 * delta inp)"
    using current_useFrame(3) [OF m'] by simp
  show "currentTiltX (frames p inp (Suc k) s)
           = lerp (currentTiltX (frames p inp k s)) (tilt inp) (5 * delta inp)"
    using current_useFrame(4) [OF m'] by simp
qed

text \<open>
  The rotation and the tilt have fixed targets: their errors are multiplied by
  \<open>1 - 10 * delta\<close> and \<open>1 - 5 * delta\<close> in every frame.
\<close>

lemma rotation_error:
  assumes "meshRef s = Some m"
  shows "currentRotationY (frames p inp k s) - angle p inp
           = (1 - 10 * delta inp) ^ k * (currentRotationY s - angle p inp)"
proof (induction k)
  case 0
  show ?case by simp
next
  case (Suc k)
  have "currentRotationY (frames p inp (Suc k) s) - angle p inp
      = (1 - 10 * delta inp) * (currentRotationY (frames p inp k s) - angle p inp)"
    unfolding frames_step(1) [OF assms] by (rule lerp_error)
  then show ?case by (simp add: Suc.IH)
qed

lemma tilt_error:
  assumes "meshRef s = Some m"
  shows "currentTiltX (frames p inp k s) - tilt inp
           = (1 - 5 * delta inp) ^ k * (currentTiltX s - tilt inp)"
proof (induction k)
  case 0
  show ?case by simp
next
  case (Suc k)
  have "currentTiltX (frames p inp (Suc k) s) - tilt inp
      = (1 - 5 * delta inp) * (currentTiltX (frames p inp k s) - tilt inp)"
    unfolding frames_step(4) [OF assms] by (rule lerp_error)
  then show ?case by (simp add: Suc.IH)
qed

lemma rotation_abs_error:
  assumes "meshRef s = Some m"
  shows "\<bar>currentRotationY (frames p inp k s) - angle p inp\<bar>
           = \<bar>1 - 10 * delta inp\<bar> ^ k * \<bar>currentRotationY s - angle p inp\<bar>"
  by (simp add: rotation_error [OF assms] abs_mult power_abs)

lemma tilt_abs_error:
  assumes "meshRef s = Some m"
  shows "\<bar>currentTiltX (frames p inp k s) - tilt inp\<bar>
           = \<bar>1 - 5 * delta inp\<bar> ^ k * \<bar>currentTiltX s - tilt inp\<bar>"
  by (simp add: tilt_error [OF assms] abs_mult power_abs)

lemma factor_bounds:
  fixes d :: real
  assumes "0 < d" "d < 1 / 5"
  shows "\<bar>1 - 10 * d\<bar> < 1" "\<bar>1 - 8 * d\<bar> < 1" "\<bar>1 - 5 * d\<bar> < 1"
  using assms by (simp_all add: abs_less_iff)

text \<open>
  The position targets move with the rotation. They depend on it through \<open>cos\<close> and
  \<open>sin\<close>, which change by no more than their argument does.
\<close>

lemma cos_lipschitz:
  fixes u v :: real
  shows "\<bar>cos u - cos v\<bar> \<le> \<bar>u - v\<bar>"
proof -
  have "\<bar>cos u - cos v\<bar> = 2 * (\<bar>sin ((u + v) / 2)\<bar> * \<bar>sin ((v - u) / 2)\<bar>)"
    by (simp add: cos_diff_cos abs_mult)
  also have "\<dots> \<le> 2 * (1 * \<bar>(v - u) / 2\<bar>)"
    by (intro mult_left_mono mult_mono abs_sin_x_le_abs_x) simp_all
  also have "\<dots> = \<bar>u - v\<bar>" by simp
  finally show ?thesis .
qed

lemma sin_lipschitz:
  fixes u v :: real
  shows "\<bar>sin u - sin v\<bar> \<le> \<bar>u - v\<bar>"
proof -
  have "\<bar>sin u - sin v\<bar> = 2 * (\<bar>sin ((u - v) / 2)\<bar> * \<bar>cos ((u + v) / 2)\<bar>)"
    by (simp add: sin_diff_sin abs_mult)
  also have "\<dots> \<le> 2 * (\<bar>(u - v) / 2\<bar> * 1)"
    by (intro mult_left_mono mult_mono abs_sin_x_le_abs_x) simp_all
  also have "\<dots> = \<bar>u - v\<bar>" by simp
  finally show ?thesis .
qed

lemma newX_lipschitz: "\<bar>newX p r - newX p a\<bar> \<le> \<bar>initialX p\<bar> * \<bar>r - a\<bar>"
proof -
  have "\<bar>newX p r - newX p a\<bar> = \<bar>initialX p\<bar> * \<bar>cos \<bar>r\<bar> - cos \<bar>a\<bar>\<bar>"
    by (simp add: newX_def abs_mult right_diff_distrib [symmetric])
  also have "\<dots> \<le> \<bar>initialX p\<bar> * \<bar>r - a\<bar>"
    using cos_lipschitz [of r a] by (intro mult_left_mono) simp_all
  finally show ?thesis .
qed

lemma abs_dir: "\<bar>dir i\<bar> = 1"
  by (simp add: dir_def)

lemma zOffset_lipschitz: "\<bar>zOffset p r - zOffset p a\<bar> \<le> \<bar>stripWidth p * 0.25\<bar> * \<bar>r - a\<bar>"
proof -
  define c where "c = stripWidth p * 0.25"
  have e: "zOffset p r - zOffset p a = (sin \<bar>r\<bar> - sin \<bar>a\<bar>) * c * dir (index p)"
    by (simp add: zOffset_def c_def algebra_simps)
  have "\<bar>zOffset p r - zOffset p a\<bar> = \<bar>sin \<bar>r\<bar> - sin \<bar>a\<bar>\<bar> * \<bar>c\<bar> * \<bar>dir (index p)\<bar>"
    unfolding e by (simp only: abs_mult)
  then have l: "\<bar>zOffset p r - zOffset p a\<bar> = \<bar>c\<bar> * \<bar>sin \<bar>r\<bar> - sin \<bar>a\<bar>\<bar>"
    by (simp add: abs_dir)
  have "\<bar>sin \<bar>r\<bar> - sin \<bar>a\<bar>\<bar> \<le> \<bar>\<bar>r\<bar> - \<bar>a\<bar>\<bar>" by (rule sin_lipschitz)
  also have "\<dots> \<le> \<bar>r - a\<bar>" by (rule abs_triangle_ineq3)
  finally have "\<bar>c\<bar> * \<bar>sin \<bar>r\<bar> - sin \<bar>a\<bar>\<bar> \<le> \<bar>c\<bar> * \<bar>r - a\<bar>"
    by (intro mult_left_mono) simp_all
  then show ?thesis unfolding l c_def .
qed

text \<open>
  An error that is contracted by \<open>a\<close> and disturbed by a geometrically decaying term
  \<open>c * b ^ k\<close> is bounded by \<open>\<rho> ^ k * (\<bar>e 0\<bar> + k * c)\<close> for any \<open>\<rho>\<close> above \<open>a\<close> and
  \<open>b\<close>, and so falls below every tolerance when \<open>a, b < 1\<close>.
\<close>

lemma driven_bound:
  fixes e :: "nat \<Rightarrow> real"
  assumes step: "\<And>k. \<bar>e (Suc k)\<bar> \<le> a * \<bar>e k\<bar> + c * b ^ Suc k"
    and a: "0 \<le> a" "a \<le> \<rho>" and b: "0 \<le> b" "b \<le> \<rho>" and c: "0 \<le> c"
  shows "\<bar>e k\<bar> \<le> \<rho> ^ k * (\<bar>e 0\<bar> + real k * c)"
proof (induction k)
  case 0
  show ?case by simp
next
  case (Suc k)
  have r: "0 \<le> \<rho>" using a by linarith
  have "\<bar>e (Suc k)\<bar> \<le> a * \<bar>e k\<bar> + c * b ^ Suc k" by (rule step)
  also have "a * \<bar>e k\<bar> \<le> \<rho> * \<bar>e k\<bar>"
    using a by (intro mult_right_mono) simp_all
  also have "\<rho> * \<bar>e k\<bar> \<le> \<rho> * (\<rho> ^ k * (\<bar>e 0\<bar> + real k * c))"
    using Suc.IH r by (rule mult_left_mono)
  also have "c * b ^ Suc k \<le> c * \<rho> ^ Suc k"
    using b c by (intro mult_left_mono power_mono) simp_all
  finally show ?case by (simp add: algebra_simps)
qed

lemma driven_limit:
  fixes \<rho> :: real
  assumes "0 \<le> \<rho>" "\<rho> < 1"
  shows "(\<lambda>k. \<rho> ^ k * (E + real k * c)) \<longlonglongrightarrow> 0"
proof -
  have n: "norm \<rho> < 1" using assms by simp
  have 1: "(\<lambda>k. \<rho> ^ k * E) \<longlonglongrightarrow> 0 * E"
    by (intro tendsto_mult LIMSEQ_power_zero n tendsto_const)
  have 2: "(\<lambda>k. (real k * \<rho> ^ k) * c) \<longlonglongrightarrow> 0 * c"
    by (intro tendsto_mult powser_times_n_limit_0 [OF n] tendsto_const)
  have "(\<lambda>k. \<rho> ^ k * E + (real k * \<rho> ^ k) * c) \<longlonglongrightarrow> 0 * E + 0 * c"
    using 1 2 by (rule tendsto_add)
  then show ?thesis by (simp add: algebra_simps)
qed

lemma driven_settles:
  fixes e :: "nat \<Rightarrow> real"
  assumes step: "\<And>k. \<bar>e (Suc k)\<bar> \<le> a * \<bar>e k\<bar> + c * b ^ Suc k"
    and a: "0 \<le> a" "a < 1" and b: "0 \<le> b" "b < 1" and c: "0 \<le> c"
    and eps: "0 < \<epsilon>"
  shows "\<exists>N. \<forall>k\<ge>N. \<bar>e k\<bar> < \<epsilon>"
proof -
  define \<rho> where "\<rho> = max a b"
  have r: "0 \<le> \<rho>" "\<rho> < 1" "a \<le> \<rho>" "b \<le> \<rho>" using a b by (simp_all add: \<rho>_def)
  have bound: "\<bar>e k\<bar> \<le> \<rho> ^ k * (\<bar>e 0\<bar> + real k * c)" for k
    using step a(1) r(3) b(1) r(4) c by (rule driven_bound)
  have "(\<lambda>k. \<rho> ^ k * (\<bar>e 0\<bar> + real k * c)) \<longlonglongrightarrow> 0"
    using r(1,2) by (rule driven_limit)
  then obtain N where N: "\<forall>k\<ge>N. norm (\<rho> ^ k * (\<bar>e 0\<bar> + real k * c) - 0) < \<epsilon>"
    using eps unfolding LIMSEQ_iff by blast
  have "\<bar>e k\<bar> < \<epsilon>" if "N \<le> k" for k
  proof -
    have "\<rho> ^ k * (\<bar>e 0\<bar> + real k * c) < \<epsilon>"
      using N that by (auto simp add: abs_less_iff)
    with bound [of k] show ?thesis by linarith
  qed
  then show ?thesis by blast
qed

lemma rotation_settles:
  assumes m: "meshRef s = Some m" and d: "0 < delta inp" "delta inp < 1 / 5" and e: "0 < \<epsilon>"
  shows "\<exists>N. \<forall>k\<ge>N. \<bar>currentRotationY (frames p inp k s) - angle p inp\<bar> < \<epsilon>"
proof (rule driven_settles [where a = "\<bar>1 - 10 * delta inp\<bar>" and b = 0 and c = 0])
  fix k
  show "\<bar>currentRotationY (frames p inp (Suc k) s) - angle p inp\<bar>
      \<le> \<bar>1 - 10 * delta inp\<bar> * \<bar>currentRotationY (frames p inp k s) - angle p inp\<bar>
          + 0 * 0 ^ Suc k"
    unfolding rotation_abs_error [OF m] by simp
qed (use d e factor_bounds(1) [OF d] in simp_all)

lemma tilt_settles:
  assumes m: "meshRef s = Some m" and d: "0 < delta inp" "delta inp < 1 / 5" and e: "0 < \<epsilon>"
  shows "\<exists>N. \<forall>k\<ge>N. \<bar>currentTiltX (frames p inp k s) - tilt inp\<bar> < \<epsilon>"
proof (rule driven_settles [where a = "\<bar>1 - 5 * delta inp\<bar>" and b = 0 and c = 0])
  fix k
  show "\<bar>currentTiltX (frames p inp (Suc k) s) - tilt inp\<bar>
      \<le> \<bar>1 - 5 * delta inp\<bar> * \<bar>currentTiltX (frames p inp k s) - tilt inp\<bar>
          + 0 * 0 ^ Suc k"
    unfolding tilt_abs_error [OF m] by simp
qed (use d e factor_bounds(3) [OF d] in simp_all)

lemma positionX_settles:
  assumes m: "meshRef s = Some m" and d: "0 < delta inp" "delta inp < 1 / 5" and e: "0 < \<epsilon>"
  shows "\<exists>N. \<forall>k\<ge>N. \<bar>currentPositionX (frames p inp k s) - newX p (angle p inp)\<bar> < \<epsilon>"
proof (rule driven_settles [where a = "\<bar>1 - 8 * delta inp\<bar>" and b = "\<bar>1 - 10 * delta inp\<bar>"
      and c = "8 * delta inp * (\<bar>initialX p\<bar> * \<bar>currentRotationY s - angle p inp\<bar>)"])
  fix k
  let ?x = "\<lambda>k. currentPositionX (frames p inp k s)"
  let ?r = "\<lambda>k. currentRotationY (frames p inp k s)"
  let ?L = "newX p (angle p inp)"
  have "?x (Suc k) - ?L
      = (1 - 8 * delta inp) * (?x k - ?L) + 8 * delta inp * (newX p (?r (Suc k)) - ?L)"
    unfolding frames_step(2) [OF m] by (rule lerp_error_moving)
  then have "\<bar>?x (Suc k) - ?L\<bar>
      \<le> \<bar>(1 - 8 * delta inp) * (?x k - ?L)\<bar> + \<bar>8 * delta inp * (newX p (?r (Suc k)) - ?L)\<bar>"
    by (simp only: abs_triangle_ineq)
  also have "\<dots> = \<bar>1 - 8 * delta inp\<bar> * \<bar>?x k - ?L\<bar>
      + 8 * delta inp * \<bar>newX p (?r (Suc k)) - ?L\<bar>"
    using d by (simp add: abs_mult)
  also have "\<dots> \<le> \<bar>1 - 8 * delta inp\<bar> * \<bar>?x k - ?L\<bar>
      + 8 * delta inp * (\<bar>initialX p\<bar> * \<bar>?r (Suc k) - angle p inp\<bar>)"
    using d newX_lipschitz [of p "?r (Suc k)" "angle p inp"]
    by (intro add_left_mono mult_left_mono) simp_all
  also have "\<dots> = \<bar>1 - 8 * delta inp\<bar> * \<bar>?x k - ?L\<bar>
      + 8 * delta inp * (\<bar>initialX p\<bar> * \<bar>currentRotationY s - angle p inp\<bar>)
          * \<bar>1 - 10 * delta inp\<bar> ^ Suc k"
    unfolding rotation_abs_error [OF m] by (simp add: algebra_simps)
  finally show "\<bar>?x (Suc k) - ?L\<bar> \<le> \<bar>1 - 8 * delta inp\<bar> * \<bar>?x k - ?L\<bar>
      + 8 * delta inp * (\<bar>initialX p\<bar> * \<bar>currentRotationY s - angle p inp\<bar>)
          * \<bar>1 - 10 * delta inp\<bar> ^ Suc k" .
qed (use d e factor_bounds [OF d] in simp_all)

lemma positionZ_settles:
  assumes m: "meshRef s = Some m" and d: "0 < delta inp" "delta inp < 1 / 5" and e: "0 < \<epsilon>"
  shows "\<exists>N. \<forall>k\<ge>N. \<bar>currentPositionZ (frames p inp k s) - zOffset p (angle p inp)\<bar> < \<epsilon>"
proof (rule driven_settles [where a = "\<bar>1 - 8 * delta inp\<bar>" and b = "\<bar>1 - 10 * delta inp\<bar>"
      and c = "8 * delta inp * (\<bar>stripWidth p * 0.25\<bar> * \<bar>currentRotationY s - angle p inp\<bar>)"])
  fix k
  let ?x = "\<lambda>k. currentPositionZ (frames p inp k s)"
  let ?r = "\<lambda>k. currentRotationY (frames p inp k s)"
  let ?L = "zOffset p (angle p inp)"
  have "?x (Suc k) - ?L
      = (1 - 8 * delta inp) * (?x k - ?L) + 8 * delta inp * (zOffset p (?r (Suc k)) - ?L)"
    unfolding frames_step(3) [OF m] by (rule lerp_error_moving)
  then have "\<bar>?x (Suc k) - ?L\<bar>
      \<le> \<bar>(1 - 8 * delta inp) * (?x k - ?L)\<bar> + \<bar>8 * delta inp * (zOffset p (?r (Suc k)) - ?L)\<bar>"
    by (simp only: abs_triangle_ineq)
  also have "\<dots> = \<bar>1 - 8 * delta inp\<bar> * \<bar>?x k - ?L\<bar>
      + 8 * delta inp * \<bar>zOffset p (?r (Suc k)) - ?L\<bar>"
    using d by (simp add: abs_mult)
  also have "\<dots> \<le> \<bar>1 - 8 * delta inp\<bar> * \<bar>?x k - ?L\<bar>
      + 8 * delta inp * (\<bar>stripWidth p * 0.25\<bar> * \<bar>?r (Suc k) - angle p inp\<bar>)"
    using d zOffset_lipschitz [of p "?r (Suc k)" "angle p inp"]
    by (intro add_left_mono mult_left_mono) simp_all
  also have "\<dots> = \<bar>1 - 8 * delta inp\<bar> * \<bar>?x k - ?L\<bar>
      + 8 * delta inp * (\<bar>stripWidth p * 0.25\<bar> * \<bar>currentRotationY s - angle p inp\<bar>)
          * \<bar>1 - 10 * delta inp\<bar> ^ Suc k"
    unfolding rotation_abs_error [OF m] by (simp add: algebra_simps)
  finally show "\<bar>?x (Suc k) - ?L\<bar> \<le> \<bar>1 - 8 * delta inp\<bar> * \<bar>?x k - ?L\<bar>
      + 8 * delta inp * (\<bar>stripWidth p * 0.25\<bar> * \<bar>currentRotationY s - angle p inp\<bar>)
          * \<bar>1 - 10 * delta inp\<bar> ^ Suc k" .
qed (use d e factor_bounds [OF d] in simp_all)

lemma all_settle:
  assumes m: "meshRef s = Some m" and d: "0 < delta inp" "delta inp < 1 / 5" and e: "0 < \<epsilon>"
  shows "\<exists>N. \<forall>k\<ge>N.
      \<bar>currentRotationY (frames p inp k s) - angle p inp\<bar> < \<epsilon>
    \<and> \<bar>currentPositionX (frames p inp k s) - newX p (angle p inp)\<bar> < \<epsilon>
    \<and> \<bar>currentPositionZ (frames p inp k s) - zOffset p (angle p inp)\<bar> < \<epsilon>
    \<and> \<bar>currentTiltX (frames p inp k s) - tilt inp\<bar> < \<epsilon>"
proof -
  obtain N1 where 1: "\<forall>k\<ge>N1. \<bar>currentRotationY (frames p inp k s) - angle p inp\<bar> < \<epsilon>"
    using rotation_settles [OF m d e] by blast
  obtain N2 where 2: "\<forall>k\<ge>N2. \<bar>currentPositionX (frames p inp k s) - newX p (angle p inp)\<bar> < \<epsilon>"
    using positionX_settles [OF m d e] by blast
  obtain N3 where 3: "\<forall>k\<ge>N3. \<bar>currentPositionZ (frames p inp k s) - zOffset p (angle p inp)\<bar> < \<epsilon>"
    using positionZ_settles [OF m d e] by blast
  obtain N4 where 4: "\<forall>k\<ge>N4. \<bar>currentTiltX (frames p inp k s) - tilt inp\<bar> < \<epsilon>"
    using tilt_settles [OF m d e] by blast
  have "\<forall>k\<ge>max (max N1 N2) (max N3 N4).
      \<bar>currentRotationY (frames p inp k s) - angle p inp\<bar> < \<epsilon>
    \<and> \<bar>currentPositionX (frames p inp k s) - newX p (angle p inp)\<bar> < \<epsilon>
    \<and> \<bar>currentPositionZ (frames p inp k s) - zOffset p (angle p inp)\<bar> < \<epsilon>
    \<and> \<bar>currentTiltX (frames p inp k s) - tilt inp\<bar> < \<epsilon>"
    using 1 2 3 4 by simp
  then show ?thesis by (rule exI)
qed

lemma settledState_fixed: "useFrame p inp (settledState p inp) = settledState p inp"
  by (simp add: useFrame_def settledState_def Let_def lerp_def algebra_simps)

lemma settledState_rotation: "currentRotationY (settledState p inp) = angle p inp"
  by (simp add: settledState_def currentRotationY_def)

text \<open>
  Claim C7, as the source has it. Let the mesh be mounted and the input constant, with a
  frame delta in \<open>(0, 1/5)\<close>. Then the errors of the rotation and of the tilt decay
  geometrically, \<open>\<bar>error after k frames\<bar> = \<bar>1 - 10 * delta\<bar> ^ k * \<bar>initial error\<bar>\<close> (with 5
  for the tilt) and both factors are below 1, so both errors never grow from one frame to the
  next; and for every tolerance there is a number of frames after which the rotation, the
  horizontal position, the depth and the tilt all stay within the tolerance of \<open>angle\<close>,
  \<open>newX\<close> at \<open>angle\<close>, \<open>zOffset\<close> at \<open>angle\<close> and \<open>tilt\<close>. Nothing is said of a frame
  delta of \<open>1/5\<close> or more, and the positions are not claimed to approach monotonically.
\<close>

theorem constant_input_convergence:
  assumes m: "meshRef s = Some m" and d: "0 < delta inp" "delta inp < 1 / 5"
  shows "(\<forall>k. \<bar>currentRotationY (frames p inp k s) - angle p inp\<bar>
              = \<bar>1 - 10 * delta inp\<bar> ^ k * \<bar>currentRotationY s - angle p inp\<bar>)
    \<and> (\<forall>k. \<bar>currentTiltX (frames p inp k s) - tilt inp\<bar>
              = \<bar>1 - 5 * delta inp\<bar> ^ k * \<bar>currentTiltX s - tilt inp\<bar>)
    \<and> \<bar>1 - 10 * delta inp\<bar> < 1 \<and> \<bar>1 - 5 * delta inp\<bar> < 1
    \<and> (\<forall>k. \<bar>currentRotationY (frames p inp (Suc k) s) - angle p inp\<bar>
              \<le> \<bar>currentRotationY (frames p inp k s) - angle p inp\<bar>)
    \<and> (\<forall>k. \<bar>currentTiltX (frames p inp (Suc k) s) - tilt inp\<bar>
              \<le> \<bar>currentTiltX (frames p inp k s) - tilt inp\<bar>)
    \<and> (\<forall>\<epsilon>>0. \<exists>N. \<forall>k\<ge>N.
            \<bar>currentRotationY (frames p inp k s) - angle p inp\<bar> < \<epsilon>
          \<and> \<bar>currentPositionX (frames p inp k s) - newX p (angle p inp)\<bar> < \<epsilon>
          \<and> \<bar>currentPositionZ (frames p inp k s) - zOffset p (angle p inp)\<bar> < \<epsilon>
          \<and> \<bar>currentTiltX (frames p inp k s) - tilt inp\<bar> < \<epsilon>)"
proof -
  note f = factor_bounds [OF d]
  have 1: "\<forall>k. \<bar>currentRotationY (frames p inp k s) - angle p inp\<bar>
              = \<bar>1 - 10 * delta inp\<bar> ^ k * \<bar>currentRotationY s - angle p inp\<bar>"
    using rotation_abs_error [OF m] by blast
  have 2: "\<forall>k. \<bar>currentTiltX (frames p inp k s) - tilt inp\<bar>
              = \<bar>1 - 5 * delta inp\<bar> ^ k * \<bar>currentTiltX s - tilt inp\<bar>"
    using tilt_abs_error [OF m] by blast
  have 3: "\<bar>currentRotationY (frames p inp (Suc k) s) - angle p inp\<bar>
              \<le> \<bar>currentRotationY (frames p inp k s) - angle p inp\<bar>" for k
  proof -
    have "\<bar>currentRotationY (frames p inp (Suc k) s) - angle p inp\<bar>
        = \<bar>1 - 10 * delta inp\<bar> * \<bar>currentRotationY (frames p inp k s) - angle p inp\<bar>"
      unfolding rotation_abs_error [OF m] by simp
    also have "\<dots> \<le> 1 * \<bar>currentRotationY (frames p inp k s) - angle p inp\<bar>"
      using f(1) by (intro mult_right_mono) simp_all
    finally show ?thesis by simp
  qed
  have 4: "\<bar>currentTiltX (frames p inp (Suc k) s) - tilt inp\<bar>
              \<le> \<bar>currentTiltX (frames p inp k s) - tilt inp\<bar>" for k
  proof -
    have "\<bar>currentTiltX (frames p inp (Suc k) s) - tilt inp\<bar>
        = \<bar>1 - 5 * delta inp\<bar> * \<bar>currentTiltX (frames p inp k s) - tilt inp\<bar>"
      unfolding tilt_abs_error [OF m] by simp
    also have "\<dots> \<le> 1 * \<bar>currentTiltX (frames p inp k s) - tilt inp\<bar>"
      using f(3) by (intro mult_right_mono) simp_all
    finally show ?thesis by simp
  qed
  have 5: "\<forall>\<epsilon>>0. \<exists>N. \<forall>k\<ge>N.
            \<bar>currentRotationY (frames p inp k s) - angle p inp\<bar> < \<epsilon>
          \<and> \<bar>currentPositionX (frames p inp k s) - newX p (angle p inp)\<bar> < \<epsilon>
          \<and> \<bar>currentPositionZ (frames p inp k s) - zOffset p (angle p inp)\<bar> < \<epsilon>
          \<and> \<bar>currentTiltX (frames p inp k s) - tilt inp\<bar> < \<epsilon>"
    using all_settle [OF m d] by blast
  from 1 2 f(1) f(3) 3 4 5 show ?thesis by blast
qed

theorem constant_input_convergence_witness:
  "meshRef (initialState (exampleStrip 0 (pi / 2.2)))
      = Some (mountedMesh (exampleStrip 0 (pi / 2.2)))
   \<and> 0 < delta (exampleInput 1 0 0 (1 / 20)) \<and> delta (exampleInput 1 0 0 (1 / 20)) < 1 / 5
   \<and> \<bar>currentRotationY (frames (exampleStrip 0 (pi / 2.2)) (exampleInput 1 0 0 (1 / 20)) 2
          (initialState (exampleStrip 0 (pi / 2.2)))) - pi / 2.2\<bar> = pi / 8.8
   \<and> (\<exists>N. \<forall>k\<ge>N.
         \<bar>currentPositionX (frames (exampleStrip 0 (pi / 2.2)) (exampleInput 1 0 0 (1 / 20)) k
            (initialState (exampleStrip 0 (pi / 2.2)))) - (- 3) * cos (pi / 2.2)\<bar> < 1 / 1000)"
proof -
  let ?p = "exampleStrip 0 (pi / 2.2)"
  let ?inp = "exampleInput 1 0 0 (1 / 20)"
  have d: "delta ?inp = 1 / 20" by (simp add: exampleInput_def)
  have d': "0 < delta ?inp" "delta ?inp < 1 / 5" by (simp_all add: d)
  note th = constant_input_convergence [OF initialState_simps(1) d', of ?p]
  from th have "\<bar>currentRotationY (frames ?p ?inp 2 (initialState ?p)) - angle ?p ?inp\<bar>
      = \<bar>1 - 10 * delta ?inp\<bar> ^ 2 * \<bar>currentRotationY (initialState ?p) - angle ?p ?inp\<bar>"
    by blast
  then have r: "\<bar>currentRotationY (frames ?p ?inp 2 (initialState ?p)) - pi / 2.2\<bar> = pi / 8.8"
    unfolding angle_example d initialState_simps by (simp add: power2_eq_square)
  have L: "newX ?p (angle ?p ?inp) = (- 3) * cos (pi / 2.2)"
    unfolding angle_example by (simp add: newX_def exampleStrip_geometry)
  from th have "\<exists>N. \<forall>k\<ge>N.
      \<bar>currentPositionX (frames ?p ?inp k (initialState ?p)) - newX ?p (angle ?p ?inp)\<bar>
        < 1 / 1000"
    by (meson zero_less_divide_1_iff zero_less_numeral)
  then have x: "\<exists>N. \<forall>k\<ge>N.
      \<bar>currentPositionX (frames ?p ?inp k (initialState ?p)) - (- 3) * cos (pi / 2.2)\<bar>
        < 1 / 1000"
    unfolding L .
  from initialState_simps(1) d' r x show ?thesis by blast
qed

text \<open>
  Claim C7 as stated fails. With a frame delta of half a second the interpolation factor of
  the rotation is 5: from the initial state, with the pointer at the right edge, the error
  of strip 0 grows from \<open>pi / 2.2\<close> to \<open>4 * (pi / 2.2)\<close> in one frame. And with a frame
  delta of \<open>1/20\<close> the horizontal position does not approach its final value
  monotonically: for a fold angle of \<open>pi / 2\<close> strip 0 starts at its final position 0 and
  the first frame moves it to \<open>- (6/5) * (sqrt 2 / 2)\<close>.
\<close>

theorem constant_input_convergence_counterexample:
  "\<not> \<bar>currentRotationY (frames (exampleStrip 0 (pi / 2.2)) (exampleInput 1 0 0 (1 / 2)) 1
          (initialState (exampleStrip 0 (pi / 2.2))))
        - angle (exampleStrip 0 (pi / 2.2)) (exampleInput 1 0 0 (1 / 2))\<bar>
      \<le> \<bar>currentRotationY (frames (exampleStrip 0 (pi / 2.2)) (exampleInput 1 0 0 (1 / 2)) 0
          (initialState (exampleStrip 0 (pi / 2.2))))
        - angle (exampleStrip 0 (pi / 2.2)) (exampleInput 1 0 0 (1 / 2))\<bar>
   \<and> \<not> \<bar>currentPositionX (frames (exampleStrip 0 (pi / 2)) (exampleInput 1 0 0 (1 / 20)) 1
          (initialState (exampleStrip 0 (pi / 2))))
        - newX (exampleStrip 0 (pi / 2))
            (angle (exampleStrip 0 (pi / 2)) (exampleInput 1 0 0 (1 / 20)))\<bar>
      \<le> \<bar>currentPositionX (frames (exampleStrip 0 (pi / 2)) (exampleInput 1 0 0 (1 / 20)) 0
          (initialState (exampleStrip 0 (pi / 2))))
        - newX (exampleStrip 0 (pi / 2))
            (angle (exampleStrip 0 (pi / 2)) (exampleInput 1 0 0 (1 / 20)))\<bar>"
proof -
  have d: "delta (exampleInput 1 0 0 (1 / 2)) = 1 / 2"
     "delta (exampleInput 1 0 0 (1 / 20)) = 1 / 20"
    by (simp_all add: exampleInput_def)
  have r1: "\<bar>currentRotationY (frames (exampleStrip 0 (pi / 2.2)) (exampleInput 1 0 0 (1 / 2)) 1
          (initialState (exampleStrip 0 (pi / 2.2))))
        - angle (exampleStrip 0 (pi / 2.2)) (exampleInput 1 0 0 (1 / 2))\<bar> = 4 * (pi / 2.2)"
    unfolding rotation_abs_error [OF initialState_simps(1)]
    unfolding angle_example d initialState_simps
    by simp
  have r0: "\<bar>currentRotationY (frames (exampleStrip 0 (pi / 2.2)) (exampleInput 1 0 0 (1 / 2)) 0
          (initialState (exampleStrip 0 (pi / 2.2))))
        - angle (exampleStrip 0 (pi / 2.2)) (exampleInput 1 0 0 (1 / 2))\<bar> = pi / 2.2"
    unfolding rotation_abs_error [OF initialState_simps(1)]
    unfolding angle_example d initialState_simps
    by simp
  have a: "\<not> (4 * (pi / 2.2) \<le> pi / 2.2)" by simp
  let ?p = "exampleStrip 0 (pi / 2)"
  let ?inp = "exampleInput 1 0 0 (1 / 20)"
  have rot: "currentRotationY (frames ?p ?inp 1 (initialState ?p)) = pi / 4"
    unfolding frames_one current_useFrame(1) [OF initialState_simps(1)]
    unfolding angle_example d initialState_simps
    by (simp add: lerp_def)
  have x1: "currentPositionX (frames ?p ?inp 1 (initialState ?p)) = - (6 / 5) * (sqrt 2 / 2)"
    unfolding One_nat_def frames_step(2) [OF initialState_simps(1)]
    unfolding One_nat_def [symmetric] rot
    by (simp add: lerp_def d initialState_simps newX_def exampleStrip_geometry cos_45)
  have x0: "currentPositionX (frames ?p ?inp 0 (initialState ?p)) = 0"
    by (simp add: initialState_simps)
  have L: "newX ?p (angle ?p ?inp) = 0"
    unfolding angle_example by (simp add: newX_def)
  have b: "\<not> \<bar>- (6 / 5) * (sqrt 2 / 2) - 0\<bar> \<le> \<bar>0 - (0::real)\<bar>" by simp
  show ?thesis
    unfolding r1 r0 x1 x0 L using a b by blast
qed

section \<open>The idle input\<close>

lemma idle_values:
  assumes i: "pointer_x inp = 0" "pointer_y inp = 0" "time inp = 0"
  shows "compression (pointer_x inp) = 0"
    and "wave (time inp) (index p) = sin (real (index p) * 0.1) * 0.1"
    and "angle p inp = dir (index p) * (sin (real (index p) * 0.1) * 0.02)"
    and "tilt inp = 0"
  using i by (simp_all add: compression_def wave_def angle_def tilt_def)

lemma idle_strip0:
  assumes i: "pointer_x inp = 0" "pointer_y inp = 0" "time inp = 0" and z: "index p = 0"
  shows "wave (time inp) (index p) = 0" and "angle p inp = 0"
    and "newX p (angle p inp) = initialX p" and "zOffset p (angle p inp) = 0"
    and "settledState p inp = flatState p"
proof -
  show w: "wave (time inp) (index p) = 0" using i z by (simp add: wave_def)
  show a: "angle p inp = 0" using i z by (simp add: angle_def wave_def compression_def)
  show "newX p (angle p inp) = initialX p" unfolding a by (simp add: newX_def)
  show "zOffset p (angle p inp) = 0" unfolding a by (simp add: zOffset_def)
  show "settledState p inp = flatState p"
    unfolding settledState_def a
    using i by (simp add: flatState_def mountedMesh_def newX_def zOffset_def tilt_def)
qed

lemma sin_tenth_pos: "0 < sin (1 / 10 :: real)"
proof -
  have "(1 / 10 :: real) < pi" using pi_ge_two by linarith
  then show ?thesis by (intro sin_gt_zero) simp_all
qed

text \<open>
  Claim C6, as the source has it. With \<open>pointer_x = 0\<close>, \<open>pointer_y = 0\<close> and elapsed time
  0 the compression is 0 and the target tilt is 0, but the wave of strip \<open>i\<close> is
  \<open>sin (i * 0.1) * 0.1\<close>, which vanishes for strip 0, and the target rotation is
  \<open>dir * (sin (i * 0.1) * 0.02)\<close>. The state holding that rotation, the positions
  \<open>newX\<close> and \<open>zOffset\<close> computed from it and tilt 0 is kept by every frame, and with a
  mounted mesh and a frame delta in \<open>(0, 1/5)\<close> repeated frames bring the strip within every
  tolerance of it. For strip 0 it is the flat state: rotation 0, position \<open>initialX\<close>,
  depth 0, tilt 0.
\<close>

theorem idle_input_settles:
  assumes m: "meshRef s = Some m" and d: "0 < delta inp" "delta inp < 1 / 5"
    and i: "pointer_x inp = 0" "pointer_y inp = 0" "time inp = 0"
  shows "compression (pointer_x inp) = 0
    \<and> wave (time inp) (index p) = sin (real (index p) * 0.1) * 0.1
    \<and> angle p inp = dir (index p) * (sin (real (index p) * 0.1) * 0.02)
    \<and> tilt inp = 0
    \<and> useFrame p inp (settledState p inp) = settledState p inp
    \<and> (\<forall>\<epsilon>>0. \<exists>N. \<forall>k\<ge>N.
            \<bar>currentRotationY (frames p inp k s)
               - dir (index p) * (sin (real (index p) * 0.1) * 0.02)\<bar> < \<epsilon>
          \<and> \<bar>currentPositionX (frames p inp k s) - newX p (angle p inp)\<bar> < \<epsilon>
          \<and> \<bar>currentPositionZ (frames p inp k s) - zOffset p (angle p inp)\<bar> < \<epsilon>
          \<and> \<bar>currentTiltX (frames p inp k s) - 0\<bar> < \<epsilon>)
    \<and> (index p = 0 \<longrightarrow>
          wave (time inp) (index p) = 0 \<and> angle p inp = 0
        \<and> newX p (angle p inp) = initialX p \<and> zOffset p (angle p inp) = 0
        \<and> settledState p inp = flatState p)"
proof -
  note v = idle_values [OF i]
  have 5: "useFrame p inp (settledState p inp) = settledState p inp"
    by (rule settledState_fixed)
  have 6: "\<forall>\<epsilon>>0. \<exists>N. \<forall>k\<ge>N.
            \<bar>currentRotationY (frames p inp k s)
               - dir (index p) * (sin (real (index p) * 0.1) * 0.02)\<bar> < \<epsilon>
          \<and> \<bar>currentPositionX (frames p inp k s) - newX p (angle p inp)\<bar> < \<epsilon>
          \<and> \<bar>currentPositionZ (frames p inp k s) - zOffset p (angle p inp)\<bar> < \<epsilon>
          \<and> \<bar>currentTiltX (frames p inp k s) - 0\<bar> < \<epsilon>"
    using all_settle [OF m d, where p = p] unfolding v(3) [symmetric] v(4) by blast
  have 7: "index p = 0 \<longrightarrow>
          wave (time inp) (index p) = 0 \<and> angle p inp = 0
        \<and> newX p (angle p inp) = initialX p \<and> zOffset p (angle p inp) = 0
        \<and> settledState p inp = flatState p"
    using idle_strip0 [OF i, of p] by blast
  from v 5 6 7 show ?thesis by blast
qed

theorem idle_input_settles_witness:
  "meshRef (initialState (exampleStrip 0 (pi / 2.2)))
      = Some (mountedMesh (exampleStrip 0 (pi / 2.2)))
   \<and> 0 < delta (exampleInput 0 0 0 (1 / 20)) \<and> delta (exampleInput 0 0 0 (1 / 20)) < 1 / 5
   \<and> pointer_x (exampleInput 0 0 0 (1 / 20)) = 0 \<and> pointer_y (exampleInput 0 0 0 (1 / 20)) = 0
   \<and> time (exampleInput 0 0 0 (1 / 20)) = 0
   \<and> index (exampleStrip 0 (pi / 2.2)) = 0
   \<and> settledState (exampleStrip 0 (pi / 2.2)) (exampleInput 0 0 0 (1 / 20))
       = flatState (exampleStrip 0 (pi / 2.2))
   \<and> (\<exists>N. \<forall>k\<ge>N.
         \<bar>currentPositionX (frames (exampleStrip 0 (pi / 2.2)) (exampleInput 0 0 0 (1 / 20)) k
            (initialState (exampleStrip 0 (pi / 2.2)))) - (- 3)\<bar> < 1 / 1000)"
proof -
  let ?p = "exampleStrip 0 (pi / 2.2)"
  let ?inp = "exampleInput 0 0 0 (1 / 20)"
  have i: "pointer_x ?inp = 0" "pointer_y ?inp = 0" "time ?inp = 0"
    and d: "0 < delta ?inp" "delta ?inp < 1 / 5"
    by (simp_all add: exampleInput_def)
  have x: "index ?p = 0" by (simp add: exampleStrip_def)
  note th = idle_input_settles [OF initialState_simps(1) d i, of ?p]
  from th x have f: "settledState ?p ?inp = flatState ?p"
    and L: "newX ?p (angle ?p ?inp) = initialX ?p"
    by blast+
  from th have "\<exists>N. \<forall>k\<ge>N.
      \<bar>currentPositionX (frames ?p ?inp k (initialState ?p)) - newX ?p (angle ?p ?inp)\<bar>
        < 1 / 1000"
    by (meson zero_less_divide_1_iff zero_less_numeral)
  then have c: "\<exists>N. \<forall>k\<ge>N.
      \<bar>currentPositionX (frames ?p ?inp k (initialState ?p)) - (- 3)\<bar> < 1 / 1000"
    unfolding L exampleStrip_geometry by simp
  from initialState_simps(1) d i x f c show ?thesis by blast
qed

text \<open>
  Claim C6 as stated fails for every strip whose wave does not vanish at time 0. For strip
  1 the wave is \<open>sin (1/10) * (1/10)\<close>, not 0, and the flat state is not kept: one frame of
  \<open>1/20\<close> s turns the strip from rotation 0 to \<open>- (sin (1/10) * (1/100))\<close>.
\<close>

theorem idle_input_settles_counterexample:
  "wave (time (exampleInput 0 0 0 (1 / 20))) (index (exampleStrip 1 (pi / 2.2))) \<noteq> 0
   \<and> currentRotationY (useFrame (exampleStrip 1 (pi / 2.2)) (exampleInput 0 0 0 (1 / 20))
        (flatState (exampleStrip 1 (pi / 2.2)))) \<noteq> 0"
proof -
  let ?p = "exampleStrip 1 (pi / 2.2)"
  let ?inp = "exampleInput 0 0 0 (1 / 20)"
  have i: "pointer_x ?inp = 0" "pointer_y ?inp = 0" "time ?inp = 0" and d: "delta ?inp = 1 / 20"
    by (simp_all add: exampleInput_def)
  have x: "index ?p = 1" by (simp add: exampleStrip_def)
  have w: "wave (time ?inp) (index ?p) = sin (1 / 10) * (1 / 10)"
    using idle_values(2) [OF i, of ?p] unfolding x by simp
  have a: "angle ?p ?inp = - (sin (1 / 10) * (1 / 50))"
    using idle_values(3) [OF i, of ?p] unfolding x by (simp add: dir_def)
  have f: "meshRef (flatState ?p) = Some (mountedMesh ?p)" "currentRotationY (flatState ?p) = 0"
    by (simp_all add: flatState_def currentRotationY_def)
  have r: "currentRotationY (useFrame ?p ?inp (flatState ?p)) = - (sin (1 / 10) * (1 / 100))"
    unfolding current_useFrame(1) [OF f(1)]
    unfolding a d f(2) by (simp add: lerp_def)
  show ?thesis unfolding w r using sin_tenth_pos by simp
qed

section \<open>Direction of adjacent strips\<close>

lemma abs_wave_le: "\<bar>wave t i\<bar> \<le> 1 / 10"
proof -
  have "\<bar>wave t i\<bar> = \<bar>sin (t * 0.5 + real i * 0.1)\<bar> * (1 / 10)"
    by (simp add: wave_def abs_mult)
  also have "\<dots> \<le> 1 * (1 / 10)"
    by (intro mult_right_mono abs_sin_le_one) simp
  finally show ?thesis by simp
qed

lemma fold_dominates_wave:
  assumes "1 / 50 < M * c"
  shows "0 < M * c + wave t i * 0.2"
  using assms abs_wave_le [of t i] by (simp add: abs_le_iff)

lemma angle_sign:
  assumes "0 < maxFoldAngle (globalConfig p) * compression (pointer_x inp)
             + wave (time inp) (index p) * 0.2"
  shows "even (index p) \<Longrightarrow> 0 < angle p inp" and "odd (index p) \<Longrightarrow> angle p inp < 0"
  using assms by (simp_all add: angle_def dir_def even_iff_mod_2_eq_zero)

lemma rotation_eventually_sign:
  assumes m: "meshRef s = Some m" and d: "0 < delta inp" "delta inp < 1 / 5"
    and a: "angle p inp \<noteq> 0"
  shows "\<exists>N. \<forall>k\<ge>N. (0 < angle p inp \<longrightarrow> 0 < currentRotationY (frames p inp k s))
                  \<and> (angle p inp < 0 \<longrightarrow> currentRotationY (frames p inp k s) < 0)"
proof -
  have "0 < \<bar>angle p inp\<bar>" using a by simp
  then obtain N where
    N: "\<forall>k\<ge>N. \<bar>currentRotationY (frames p inp k s) - angle p inp\<bar> < \<bar>angle p inp\<bar>"
    using rotation_settles [OF m d] by blast
  have "(0 < angle p inp \<longrightarrow> 0 < currentRotationY (frames p inp k s))
      \<and> (angle p inp < 0 \<longrightarrow> currentRotationY (frames p inp k s) < 0)" if "N \<le> k" for k
    using N that by (auto simp add: abs_less_iff)
  then show ?thesis by blast
qed

lemma sin_twentieth_pos: "0 < sin (1 / 20 :: real)"
proof -
  have "(1 / 20 :: real) < pi" using pi_ge_two by linarith
  then show ?thesis by (intro sin_gt_zero) simp_all
qed

text \<open>
  Claim C8, as the source has it. Let strips \<open>p\<close> and \<open>q\<close> be adjacent
  (\<open>index q = index p + 1\<close>), both mounted and run with the same constant input and a
  frame delta in \<open>(0, 1/5)\<close>, and let the magnitude
  \<open>maxFoldAngle * compression + wave * 0.2\<close> be positive for both (as it is whenever
  \<open>maxFoldAngle * compression > 1/50\<close>, by \<open>fold_dominates_wave\<close>). Then the target of
  the even strip is positive and that of the odd strip negative, and after some number of
  frames the rotations themselves have these signs, so their product is negative.
\<close>

theorem adjacent_strips_fold_apart:
  assumes mp: "meshRef sp = Some mp" and mq: "meshRef sq = Some mq"
    and d: "0 < delta inp" "delta inp < 1 / 5"
    and adj: "index q = index p + 1"
    and hp: "0 < maxFoldAngle (globalConfig p) * compression (pointer_x inp)
                  + wave (time inp) (index p) * 0.2"
    and hq: "0 < maxFoldAngle (globalConfig q) * compression (pointer_x inp)
                  + wave (time inp) (index q) * 0.2"
  shows "(even (index p) \<longrightarrow> 0 < angle p inp \<and> angle q inp < 0)
    \<and> (odd (index p) \<longrightarrow> angle p inp < 0 \<and> 0 < angle q inp)
    \<and> (\<exists>N. \<forall>k\<ge>N.
          (even (index p) \<longrightarrow> 0 < currentRotationY (frames p inp k sp)
                               \<and> currentRotationY (frames q inp k sq) < 0)
        \<and> (odd (index p) \<longrightarrow> currentRotationY (frames p inp k sp) < 0
                               \<and> 0 < currentRotationY (frames q inp k sq))
        \<and> currentRotationY (frames p inp k sp) * currentRotationY (frames q inp k sq) < 0)"
proof -
  have par: "even (index q) \<longleftrightarrow> odd (index p)" using adj by simp
  have 1: "even (index p) \<longrightarrow> 0 < angle p inp \<and> angle q inp < 0"
    using angle_sign [OF hp] angle_sign [OF hq] par by blast
  have 2: "odd (index p) \<longrightarrow> angle p inp < 0 \<and> 0 < angle q inp"
    using angle_sign [OF hp] angle_sign [OF hq] par by blast
  have np: "angle p inp \<noteq> 0" and nq: "angle q inp \<noteq> 0"
    using 1 2 by fastforce+
  obtain Np where Np: "\<forall>k\<ge>Np. (0 < angle p inp \<longrightarrow> 0 < currentRotationY (frames p inp k sp))
                  \<and> (angle p inp < 0 \<longrightarrow> currentRotationY (frames p inp k sp) < 0)"
    using rotation_eventually_sign [OF mp d np] by blast
  obtain Nq where Nq: "\<forall>k\<ge>Nq. (0 < angle q inp \<longrightarrow> 0 < currentRotationY (frames q inp k sq))
                  \<and> (angle q inp < 0 \<longrightarrow> currentRotationY (frames q inp k sq) < 0)"
    using rotation_eventually_sign [OF mq d nq] by blast
  have 3: "(even (index p) \<longrightarrow> 0 < currentRotationY (frames p inp k sp)
                               \<and> currentRotationY (frames q inp k sq) < 0)
        \<and> (odd (index p) \<longrightarrow> currentRotationY (frames p inp k sp) < 0
                               \<and> 0 < currentRotationY (frames q inp k sq))
        \<and> currentRotationY (frames p inp k sp) * currentRotationY (frames q inp k sq) < 0"
    if k: "max Np Nq \<le> k" for k
  proof (cases "even (index p)")
    case True
    then have "0 < currentRotationY (frames p inp k sp)"
      and "currentRotationY (frames q inp k sq) < 0"
      using 1 Np Nq k by simp_all
    then show ?thesis using True by (simp add: mult_pos_neg)
  next
    case False
    then have "currentRotationY (frames p inp k sp) < 0"
      and "0 < currentRotationY (frames q inp k sq)"
      using 2 Np Nq k by simp_all
    then show ?thesis using False by (simp add: mult_neg_pos)
  qed
  from 1 2 3 show ?thesis by blast
qed

theorem adjacent_strips_fold_apart_witness:
  "meshRef (initialState (exampleStrip 0 (pi / 2.2)))
      = Some (mountedMesh (exampleStrip 0 (pi / 2.2)))
   \<and> meshRef (initialState (exampleStrip 1 (pi / 2.2)))
      = Some (mountedMesh (exampleStrip 1 (pi / 2.2)))
   \<and> 0 < delta (exampleInput 1 0 0 (1 / 20)) \<and> delta (exampleInput 1 0 0 (1 / 20)) < 1 / 5
   \<and> index (exampleStrip 1 (pi / 2.2)) = index (exampleStrip 0 (pi / 2.2)) + 1
   \<and> 0 < maxFoldAngle (globalConfig (exampleStrip 0 (pi / 2.2)))
            * compression (pointer_x (exampleInput 1 0 0 (1 / 20)))
          + wave (time (exampleInput 1 0 0 (1 / 20))) (index (exampleStrip 0 (pi / 2.2))) * 0.2
   \<and> 0 < maxFoldAngle (globalConfig (exampleStrip 1 (pi / 2.2)))
            * compression (pointer_x (exampleInput 1 0 0 (1 / 20)))
          + wave (time (exampleInput 1 0 0 (1 / 20))) (index (exampleStrip 1 (pi / 2.2))) * 0.2
   \<and> 0 < angle (exampleStrip 0 (pi / 2.2)) (exampleInput 1 0 0 (1 / 20))
   \<and> angle (exampleStrip 1 (pi / 2.2)) (exampleInput 1 0 0 (1 / 20)) < 0
   \<and> (\<exists>N. \<forall>k\<ge>N.
         0 < currentRotationY (frames (exampleStrip 0 (pi / 2.2)) (exampleInput 1 0 0 (1 / 20)) k
               (initialState (exampleStrip 0 (pi / 2.2))))
       \<and> currentRotationY (frames (exampleStrip 1 (pi / 2.2)) (exampleInput 1 0 0 (1 / 20)) k
               (initialState (exampleStrip 1 (pi / 2.2)))) < 0)"
proof -
  define p where "p = exampleStrip 0 (pi / 2.2)"
  define q where "q = exampleStrip 1 (pi / 2.2)"
  define inp where "inp = exampleInput 1 0 0 (1 / 20)"
  have d: "0 < delta inp" "delta inp < 1 / 5"
    by (simp_all add: inp_def exampleInput_def)
  have adj: "index q = index p + 1" and ev: "even (index p)"
    by (simp_all add: p_def q_def exampleStrip_def)
  have big: "1 / 50 < pi / 2.2" using pi_ge_two by simp
  have Mp: "maxFoldAngle (globalConfig p) * compression (pointer_x inp) = pi / 2.2"
    and Mq: "maxFoldAngle (globalConfig q) * compression (pointer_x inp) = pi / 2.2"
    by (simp_all add: p_def q_def inp_def exampleStrip_def exampleInput_def compression_def)
  have hp: "0 < maxFoldAngle (globalConfig p) * compression (pointer_x inp)
          + wave (time inp) (index p) * 0.2"
    by (rule fold_dominates_wave) (simp only: Mp big)
  have hq: "0 < maxFoldAngle (globalConfig q) * compression (pointer_x inp)
          + wave (time inp) (index q) * 0.2"
    by (rule fold_dominates_wave) (simp only: Mq big)
  have ip: "meshRef (initialState p) = Some (mountedMesh p)"
    and iq: "meshRef (initialState q) = Some (mountedMesh q)"
    by (rule initialState_simps(1))+
  note th = adjacent_strips_fold_apart [OF ip iq d adj hp hq]
  from th ev have a: "0 < angle p inp" "angle q inp < 0"
    by blast+
  from th ev have c: "\<exists>N. \<forall>k\<ge>N.
         0 < currentRotationY (frames p inp k (initialState p))
       \<and> currentRotationY (frames q inp k (initialState q)) < 0"
    by blast
  from ip iq d adj hp hq a c show ?thesis
    unfolding p_def q_def inp_def by (intro conjI)
qed

text \<open>
  Claim C8 as stated fails when the wave alone decides the sign. With the pointer at the
  centre and the elapsed time \<open>2 * pi - 1/10\<close> the wave arguments of strips 0 and 1 are
  \<open>pi - 1/20\<close> and \<open>pi + 1/20\<close>: both target angles are \<open>sin (1/20) * (1/50)\<close>, nonzero
  and of the same sign, and the states that hold them are kept by every frame.
\<close>

theorem adjacent_strips_fold_apart_counterexample:
  "angle (exampleStrip 0 (pi / 2.2)) (exampleInput 0 0 (2 * pi - 1 / 10) (1 / 20)) \<noteq> 0
   \<and> angle (exampleStrip 1 (pi / 2.2)) (exampleInput 0 0 (2 * pi - 1 / 10) (1 / 20)) \<noteq> 0
   \<and> useFrame (exampleStrip 0 (pi / 2.2)) (exampleInput 0 0 (2 * pi - 1 / 10) (1 / 20))
        (settledState (exampleStrip 0 (pi / 2.2)) (exampleInput 0 0 (2 * pi - 1 / 10) (1 / 20)))
      = settledState (exampleStrip 0 (pi / 2.2)) (exampleInput 0 0 (2 * pi - 1 / 10) (1 / 20))
   \<and> useFrame (exampleStrip 1 (pi / 2.2)) (exampleInput 0 0 (2 * pi - 1 / 10) (1 / 20))
        (settledState (exampleStrip 1 (pi / 2.2)) (exampleInput 0 0 (2 * pi - 1 / 10) (1 / 20)))
      = settledState (exampleStrip 1 (pi / 2.2)) (exampleInput 0 0 (2 * pi - 1 / 10) (1 / 20))
   \<and> 0 < currentRotationY
        (settledState (exampleStrip 0 (pi / 2.2)) (exampleInput 0 0 (2 * pi - 1 / 10) (1 / 20)))
   \<and> 0 < currentRotationY
        (settledState (exampleStrip 1 (pi / 2.2)) (exampleInput 0 0 (2 * pi - 1 / 10) (1 / 20)))"
proof -
  let ?inp = "exampleInput 0 0 (2 * pi - 1 / 10) (1 / 20)"
  have w0: "wave (2 * pi - 1 / 10) 0 = sin (1 / 20) * (1 / 10)"
  proof -
    have "(2 * pi - 1 / 10) * 0.5 + real 0 * 0.1 = pi - 1 / 20"
      by (simp add: algebra_simps)
    then have "wave (2 * pi - 1 / 10) 0 = sin (pi - 1 / 20) * 0.1"
      unfolding wave_def by (simp only:)
    then show ?thesis by simp
  qed
  have w1: "wave (2 * pi - 1 / 10) (Suc 0) = - sin (1 / 20) * (1 / 10)"
  proof -
    have "(2 * pi - 1 / 10) * 0.5 + real (Suc 0) * 0.1 = 1 / 20 + pi"
      by (simp add: algebra_simps)
    then have "wave (2 * pi - 1 / 10) (Suc 0) = sin (1 / 20 + pi) * 0.1"
      unfolding wave_def by (simp only:)
    then show ?thesis by simp
  qed
  have a0: "angle (exampleStrip 0 (pi / 2.2)) ?inp = sin (1 / 20) * (1 / 50)"
    by (simp add: angle_def exampleStrip_def exampleInput_def dir_def compression_def w0)
  have a1: "angle (exampleStrip 1 (pi / 2.2)) ?inp = sin (1 / 20) * (1 / 50)"
    by (simp add: angle_def exampleStrip_def exampleInput_def dir_def compression_def w1)
  show ?thesis
    unfolding settledState_fixed settledState_rotation a0 a1
    using sin_twentieth_pos by simp
qed

section \<open>The strips of one frame\<close>

























end
